theory Spec2Isabelle
  imports Complex_Main "HOL-Library.AList" "HOL-Library.Sublist"
begin

section \<open>Architecture presets (NLU\_model.py, lines 488--667)\<close>

text \<open>
  The argument object \<open>args\<close> is an argparse namespace: a finite mapping from
  attribute names to Python values. An attribute that was never assigned is absent
  (\<open>None\<close> of the map); an attribute holding Python's \<open>None\<close> is present with the
  value \<open>PNone\<close>. Float literals are carried around unchanged and never computed
  with, so they are kept as the decimal fraction written in the source.
\<close>

datatype pyval = PNone | PBool bool | PInt int | PFloat rat | PStr string

type_synonym namespace = "string \<rightharpoonup> pyval"

text \<open>\<open>getattr(args, name, default)\<close>\<close>

definition getattr :: "namespace \<Rightarrow> string \<Rightarrow> pyval \<Rightarrow> pyval" where
  "getattr args name dflt = (case args name of None \<Rightarrow> dflt | Some v \<Rightarrow> v)"

text \<open>One source line \<open>args.target = getattr(args, "source", default)\<close>.\<close>

definition assign :: "string \<Rightarrow> string \<Rightarrow> pyval \<Rightarrow> namespace \<Rightarrow> namespace" where
  "assign target source dflt args = args(target \<mapsto> getattr args source dflt)"

text \<open>
  A function body made of such lines, run top to bottom. Each line is the triple
  (assigned attribute, attribute read, default).
\<close>

fun assign_all :: "(string \<times> string \<times> pyval) list \<Rightarrow> namespace \<Rightarrow> namespace" where
  "assign_all [] args = args"
| "assign_all ((target, source, dflt) # lines) args =
     assign_all lines (assign target source dflt args)"

text \<open>The body of \<open>base_architecture\<close>, line by line (source lines 490--531).\<close>

definition base_lines :: "(string \<times> string \<times> pyval) list" where
  "base_lines =
   [(''encoder_layers'', ''encoder_layers'', PInt 12),
    (''encoder_embed_dim'', ''encoder_embed_dim'', PInt 768),
    (''encoder_attention_heads'', ''encoder_attention_heads'', PInt 12),
    (''activation_fn'', ''activation_fn'', PStr ''gelu''),
    (''pooler_activation_fn'', ''pooler_activation_fn'', PStr ''tanh''),
    (''dropout'', ''dropout'', PFloat 0.1),
    (''pooler_dropout'', ''pooler_dropout'', PFloat 0.0),
    (''encoder_layers_to_keep'', ''encoder_layers_to_keep'', PNone),
    (''encoder_layerdrop'', ''encoder_layerdrop'', PFloat 0.0),
    (''spectral_norm_classification_head'', ''spectral_nrom_classification_head'', PBool False),
    (''share_encoder_input_output_embed'', ''share_encoder_input_output_embed'', PBool True),
    (''encoder_learned_pos'', ''encoder_learned_pos'', PBool False),
    (''no_token_positional_embeddings'', ''no_token_positional_embeddings'', PBool False),
    (''sent_loss'', ''sent_loss'', PBool True),
    (''normalize_embedding'', ''normalize_embedding'', PBool False),
    (''adaptive_input'', ''adaptive_input'', PBool False),
    (''encoder_normalize_before'', ''encoder_normalize_before'', PBool False),
    (''encoder_learned_pos'', ''encoder_learned_pos'', PBool False),
    (''encoder_q_dim'', ''encoder_q_dim'', PInt 768),
    (''encoder_k_dim'', ''encoder_k_dim'', PInt 768),
    (''attention_dropout'', ''attention_dropout'', PFloat 0.0),
    (''activation_dropout'', ''activation_dropout'', PFloat 0.0),
    (''activation_fn'', ''activation_fn'', PStr ''relu''),
    (''use_position_embeddings'', ''use_position_embeddings'', PBool True),
    (''smlp_pos'', ''smlp_pos'', PStr ''before_act''),
    (''has_ffn'', ''has_ffn'', PBool False),
    (''kernal_cutoff'', ''kernal_cutoff'', PBool False),
    (''complex'', ''complex'', PBool False),
    (''complex_version'', ''complex_version'', PStr ''normal''),
    (''no_beta'', ''no_beta'', PBool False),
    (''norm_type'', ''norm_type'', PStr ''layernorm''),
    (''max_lambda'', ''max_lambda'', PFloat 0.9999),
    (''norm_after_smlp'', ''norm_after_smlp'', PBool False),
    (''cls_attn'', ''cls_attn'', PBool False),
    (''gate'', ''gate'', PBool False),
    (''freeze'', ''freeze'', PBool False)]"

definition base_architecture :: "namespace \<Rightarrow> namespace" where
  "base_architecture args = assign_all base_lines args"

definition complex_lines :: "(string \<times> string \<times> pyval) list" where
  "complex_lines =
   [(''encoder_normalize_before'', ''encoder_normalize_before'', PBool True),
    (''use_position_embeddings'', ''use_position_embeddings'', PBool False),
    (''complex'', ''complex'', PBool True),
    (''r_max'', ''r_max'', PFloat 0.9),
    (''r_min'', ''r_min'', PFloat 0.1),
    (''max_phase'', ''max_phase'', PFloat 6.28),
    (''dt_min'', ''dt_min'', PFloat 0.001),
    (''dt_max'', ''dt_max'', PFloat 0.1),
    (''gate_activation_fn'', ''gate_activation_fn'', PStr ''sigmoid'')]"

definition smlp_mlm_complex_architecture :: "namespace \<Rightarrow> namespace" where
  "smlp_mlm_complex_architecture args = base_architecture (assign_all complex_lines args)"

definition mp_lines :: "(string \<times> string \<times> pyval) list" where
  "mp_lines = [(''sen_rep_type'', ''sen_rep_type'', PStr ''mp'')]"

definition smlp_mlm_complex_architecture_mp :: "namespace \<Rightarrow> namespace" where
  "smlp_mlm_complex_architecture_mp args =
     smlp_mlm_complex_architecture (assign_all mp_lines args)"

text \<open>
  The task presets share one body up to the phase bound and the number of layers
  (source: \<open>_test1\<close>, \<open>_sst2\<close>, \<open>_cola\<close>, \<open>_mrpc\<close>, \<open>_qnli\<close>, \<open>_imdb\<close>).
\<close>

definition task_lines :: "rat \<Rightarrow> int \<Rightarrow> (string \<times> string \<times> pyval) list" where
  "task_lines max_phase layers =
   [(''r_max'', ''r_max'', PFloat 0.9),
    (''r_min'', ''r_min'', PFloat 0.1),
    (''max_phase'', ''max_phase'', PFloat max_phase),
    (''sen_rep_type'', ''sen_rep_type'', PStr ''mp''),
    (''encoder_embed_dim'', ''encoder_embed_dim'', PInt 512),
    (''encoder_k_dim'', ''encoder_k_dim'', PInt 512),
    (''encoder_layers'', ''encoder_layers'', PInt layers)]"

definition smlp_mlm_complex_architecture_test1 :: "namespace \<Rightarrow> namespace" where
  "smlp_mlm_complex_architecture_test1 args =
     smlp_mlm_complex_architecture (assign_all (task_lines 6.28 6) args)"

definition smlp_mlm_complex_architecture_sst2 :: "namespace \<Rightarrow> namespace" where
  "smlp_mlm_complex_architecture_sst2 args =
     smlp_mlm_complex_architecture (assign_all (task_lines 6.28 12) args)"

definition gate_lines :: "(string \<times> string \<times> pyval) list" where
  "gate_lines = [(''gate'', ''gate'', PBool True)]"

text \<open>Registered as \<open>smlp_mlm_complex_sst2_gate\<close>; the source names it \<open>_qqp_gate\<close>.\<close>

definition smlp_mlm_complex_architecture_qqp_gate :: "namespace \<Rightarrow> namespace" where
  "smlp_mlm_complex_architecture_qqp_gate args =
     smlp_mlm_complex_architecture_sst2 (assign_all gate_lines args)"

text \<open>Registered as \<open>smlp_mlm_complex_QQP_gate\<close>; it calls the \<open>_sst2\<close> preset.\<close>

definition smlp_mlm_complex_architecture_sst2_gate :: "namespace \<Rightarrow> namespace" where
  "smlp_mlm_complex_architecture_sst2_gate args =
     smlp_mlm_complex_architecture_sst2 (assign_all gate_lines args)"

definition smlp_mlm_complex_architecture_cola :: "namespace \<Rightarrow> namespace" where
  "smlp_mlm_complex_architecture_cola args =
     smlp_mlm_complex_architecture (assign_all (task_lines 6.28 3) args)"

definition smlp_mlm_complex_architecture_cola_gate :: "namespace \<Rightarrow> namespace" where
  "smlp_mlm_complex_architecture_cola_gate args =
     smlp_mlm_complex_architecture_cola (assign_all gate_lines args)"

definition smlp_mlm_complex_architecture_mrpc :: "namespace \<Rightarrow> namespace" where
  "smlp_mlm_complex_architecture_mrpc args =
     smlp_mlm_complex_architecture (assign_all (task_lines 6.28 6) args)"

definition smlp_mlm_complex_architecture_mrpc_gate :: "namespace \<Rightarrow> namespace" where
  "smlp_mlm_complex_architecture_mrpc_gate args =
     smlp_mlm_complex_architecture_mrpc (assign_all gate_lines args)"

text \<open>
  The source defines \<open>smlp_mlm_complex_architecture_test1_base\<close> twice; the decorator
  registers the first under \<open>smlp_mlm_complex_mnli\<close> and the second under
  \<open>smlp_mlm_complex_mnli_gate\<close>. The second gets the suffix \<open>_2\<close> here.
\<close>

definition mnli_lines :: "(string \<times> string \<times> pyval) list" where
  "mnli_lines = [(''encoder_layers'', ''encoder_layers'', PInt 12)]"

definition smlp_mlm_complex_architecture_test1_base :: "namespace \<Rightarrow> namespace" where
  "smlp_mlm_complex_architecture_test1_base args =
     smlp_mlm_complex_architecture_test1 (assign_all mnli_lines args)"

definition mnli_gate_lines :: "(string \<times> string \<times> pyval) list" where
  "mnli_gate_lines =
   [(''gate'', ''gate'', PBool True),
    (''encoder_layers'', ''encoder_layers'', PInt 12)]"

definition smlp_mlm_complex_architecture_test1_base_2 :: "namespace \<Rightarrow> namespace" where
  "smlp_mlm_complex_architecture_test1_base_2 args =
     smlp_mlm_complex_architecture_test1 (assign_all mnli_gate_lines args)"

definition complex_gate_lines :: "(string \<times> string \<times> pyval) list" where
  "complex_gate_lines =
   [(''decoder_layers'', ''decoder_layers'', PInt 16),
    (''gate'', ''gate'', PBool True)]"

definition smlp_mlm_complex_gate :: "namespace \<Rightarrow> namespace" where
  "smlp_mlm_complex_gate args =
     smlp_mlm_complex_architecture (assign_all complex_gate_lines args)"

definition smlp_mlm_complex_architecture_qnli :: "namespace \<Rightarrow> namespace" where
  "smlp_mlm_complex_architecture_qnli args =
     smlp_mlm_complex_architecture (assign_all (task_lines 6.28 6) args)"

definition smlp_mlm_complex_architecture_qnli_gate :: "namespace \<Rightarrow> namespace" where
  "smlp_mlm_complex_architecture_qnli_gate args =
     smlp_mlm_complex_architecture_test1 (assign_all gate_lines args)"

definition smlp_mlm_complex_architecture_imdb :: "namespace \<Rightarrow> namespace" where
  "smlp_mlm_complex_architecture_imdb args =
     smlp_mlm_complex_architecture (assign_all (task_lines 3.14 4) args)"

definition smlp_mlm_complex_architecture_imdb_gate :: "namespace \<Rightarrow> namespace" where
  "smlp_mlm_complex_architecture_imdb_gate args =
     smlp_mlm_complex_architecture_imdb (assign_all gate_lines args)"

text \<open>
  The table the \<open>register_model_architecture\<close> decorators fill: architecture name and
  the function registered under it, in source order.
\<close>

definition ARCH_CONFIG_REGISTRY :: "(string \<times> (namespace \<Rightarrow> namespace)) list" where
  "ARCH_CONFIG_REGISTRY =
   [(''smlp_mlm'', base_architecture),
    (''smlp_mlm_complex'', smlp_mlm_complex_architecture),
    (''smlp_mlm_complex_mp'', smlp_mlm_complex_architecture_mp),
    (''smlp_mlm_complex_QQP'', smlp_mlm_complex_architecture_test1),
    (''smlp_mlm_complex_sst2'', smlp_mlm_complex_architecture_sst2),
    (''smlp_mlm_complex_sst2_gate'', smlp_mlm_complex_architecture_qqp_gate),
    (''smlp_mlm_complex_QQP_gate'', smlp_mlm_complex_architecture_sst2_gate),
    (''smlp_mlm_complex_cola'', smlp_mlm_complex_architecture_cola),
    (''smlp_mlm_complex_cola_gate'', smlp_mlm_complex_architecture_cola_gate),
    (''smlp_mlm_complex_mrpc'', smlp_mlm_complex_architecture_mrpc),
    (''smlp_mlm_complex_mrpc_gate'', smlp_mlm_complex_architecture_mrpc_gate),
    (''smlp_mlm_complex_mnli'', smlp_mlm_complex_architecture_test1_base),
    (''smlp_mlm_complex_mnli_gate'', smlp_mlm_complex_architecture_test1_base_2),
    (''smlp_mlm_complex_gate'', smlp_mlm_complex_gate),
    (''smlp_mlm_complex_qnli'', smlp_mlm_complex_architecture_qnli),
    (''smlp_mlm_complex_qnli_gate'', smlp_mlm_complex_architecture_qnli_gate),
    (''smlp_mlm_complex_imdb'', smlp_mlm_complex_architecture_imdb),
    (''smlp_mlm_complex_imdb_gate'', smlp_mlm_complex_architecture_imdb_gate)]"

text \<open>
  Resolution: look the architecture name up and run the registered function on the
  caller's namespace. An unregistered name has no result.
\<close>

definition resolve :: "string \<Rightarrow> namespace \<Rightarrow> namespace option" where
  "resolve name partial_config =
     map_option (\<lambda>f. f partial_config) (map_of ARCH_CONFIG_REGISTRY name)"

text \<open>
  The same lookup, giving the flattened list of lines that the registered function
  and its chain of parent calls execute (most derived first, root last).
\<close>

definition preset_lines :: "string \<Rightarrow> (string \<times> string \<times> pyval) list option" where
  "preset_lines name = map_of
   [(''smlp_mlm'', base_lines),
    (''smlp_mlm_complex'', complex_lines @ base_lines),
    (''smlp_mlm_complex_mp'', mp_lines @ complex_lines @ base_lines),
    (''smlp_mlm_complex_QQP'', task_lines 6.28 6 @ complex_lines @ base_lines),
    (''smlp_mlm_complex_sst2'', task_lines 6.28 12 @ complex_lines @ base_lines),
    (''smlp_mlm_complex_sst2_gate'',
       gate_lines @ task_lines 6.28 12 @ complex_lines @ base_lines),
    (''smlp_mlm_complex_QQP_gate'',
       gate_lines @ task_lines 6.28 12 @ complex_lines @ base_lines),
    (''smlp_mlm_complex_cola'', task_lines 6.28 3 @ complex_lines @ base_lines),
    (''smlp_mlm_complex_cola_gate'',
       gate_lines @ task_lines 6.28 3 @ complex_lines @ base_lines),
    (''smlp_mlm_complex_mrpc'', task_lines 6.28 6 @ complex_lines @ base_lines),
    (''smlp_mlm_complex_mrpc_gate'',
       gate_lines @ task_lines 6.28 6 @ complex_lines @ base_lines),
    (''smlp_mlm_complex_mnli'',
       mnli_lines @ task_lines 6.28 6 @ complex_lines @ base_lines),
    (''smlp_mlm_complex_mnli_gate'',
       mnli_gate_lines @ task_lines 6.28 6 @ complex_lines @ base_lines),
    (''smlp_mlm_complex_gate'', complex_gate_lines @ complex_lines @ base_lines),
    (''smlp_mlm_complex_qnli'', task_lines 6.28 6 @ complex_lines @ base_lines),
    (''smlp_mlm_complex_qnli_gate'',
       gate_lines @ task_lines 6.28 6 @ complex_lines @ base_lines),
    (''smlp_mlm_complex_imdb'', task_lines 3.14 4 @ complex_lines @ base_lines),
    (''smlp_mlm_complex_imdb_gate'',
       gate_lines @ task_lines 3.14 4 @ complex_lines @ base_lines)] name"

text \<open>A line is plain when it reads the attribute it assigns.\<close>

definition plain :: "(string \<times> string \<times> pyval) \<Rightarrow> bool" where
  "plain line = (fst line = fst (snd line))"

text \<open>
  The one line of the source that is not plain: it assigns
  \<open>spectral_norm_classification_head\<close> and reads \<open>spectral_nrom_classification_head\<close>.
\<close>

definition typo_line :: "string \<times> string \<times> pyval" where
  "typo_line =
     (''spectral_norm_classification_head'', ''spectral_nrom_classification_head'', PBool False)"

definition orderly :: "(string \<times> string \<times> pyval) list \<Rightarrow> bool" where
  "orderly lines = (list_all (\<lambda>l. plain l \<or> l = typo_line) lines
      \<and> ''spectral_nrom_classification_head'' \<notin> fst ` set lines)"

text \<open>
  A namespace in which every option of the root preset is set, with spectral
  normalisation of the classification head requested by the caller.
\<close>

definition all_options_set :: namespace where
  "all_options_set =
     (base_architecture Map.empty)(''spectral_norm_classification_head'' \<mapsto> PBool True)"

section \<open>The model, its classification heads and the state-dict upgrade\<close>

subsection \<open>Python values of the model\<close>

text \<open>The exceptions the modelled code can raise.\<close>

datatype error =
    KeyError | IndexError | AttributeError | NotImplementedError
  | RuntimeError | ValueError | AssertionError | ZeroDivisionError

text \<open>
  A tensor is seen through its shape only; its values are opaque and are identified
  by \<open>content\<close>. A newly created parameter takes its content from the generator
  state of the model, so parameters created at different moments differ.
\<close>

record tensor =
  shape :: "nat list"
  content :: nat

text \<open>\<open>t.size(0)\<close>: the first dimension; a tensor without dimensions has none.\<close>

definition size0 :: "tensor \<Rightarrow> error + nat" where
  "size0 t = (case shape t of [] \<Rightarrow> Inl IndexError | n # _ \<Rightarrow> Inr n)"

text \<open>
  A Python \<open>dict\<close> (and a \<open>ModuleDict\<close>) keeps its keys in insertion order: an
  association list with unique keys. \<open>d[k] = v\<close> is \<open>AList.update k v d\<close> (in place
  for an old key, at the end for a new one), \<open>del d[k]\<close> is \<open>AList.delete k d\<close>,
  \<open>d[k]\<close> is \<open>getitem d k\<close>, and \<open>k in d\<close> is \<open>k \<in> set (map fst d)\<close>.
\<close>

type_synonym state_dict = "(string \<times> tensor) list"

definition getitem :: "(string \<times> 'v) list \<Rightarrow> string \<Rightarrow> error + 'v" where
  "getitem d k = (case map_of d k of None \<Rightarrow> Inl KeyError | Some v \<Rightarrow> Inr v)"

text \<open>\<open>s.startswith(p)\<close>\<close>

definition startswith :: "string \<Rightarrow> string \<Rightarrow> bool" where
  "startswith s p = prefix p s"

text \<open>
  The attributes of \<open>self.args\<close> that the model reads. \<open>None\<close> is an attribute that
  was never set: reading it raises \<open>AttributeError\<close>, and \<open>getattr\<close> with a default
  yields the default.
\<close>

record model_args =
  encoder_embed_dim :: "nat option"
  pooler_activation_fn :: "string option"
  pooler_dropout :: "rat option"
  quant_noise_pq :: "rat option"
  quant_noise_pq_block_size :: "nat option"
  spectral_norm_classification_head :: "bool option"
  sen_rep_type :: "string option"
  load_checkpoint_heads :: "bool option"

text \<open>
  A classification head: the \<open>out_features\<close> of its two linear layers, the constructor
  arguments its forward pass uses, and its own \<open>state_dict()\<close> (parameter name,
  tensor) in the order the tensor library lists it.
\<close>

record head =
  dense_out_features :: nat
  out_proj_out_features :: nat
  head_activation_fn :: string
  head_dropout :: rat
  head_sen_rep_type :: string
  head_state :: "(string \<times> tensor) list"

datatype level = WARNING | INFO

text \<open>The messages of the logger, by the statement that emits them.\<close>

datatype diag =
    ReRegistering string nat nat "nat option" nat
  | UsingSentenceRepresentation string
  | DeletingAbsentHead string string
  | DeletingDifferentDims string string
  | Overwriting string

fun level_of :: "diag \<Rightarrow> level" where
  "level_of (ReRegistering name num_classes prev_num_classes inner_dim prev_inner_dim) = WARNING"
| "level_of (UsingSentenceRepresentation t) = INFO"
| "level_of (DeletingAbsentHead head_name k) = WARNING"
| "level_of (DeletingDifferentDims head_name k) = WARNING"
| "level_of (Overwriting k) = INFO"

text \<open>
  The model object: its arguments, the \<open>ModuleDict\<close> of heads, the state of the
  random generator that initialises new parameters, and what it has logged.
  \<open>__init__\<close> always creates \<open>classification_heads\<close>, so the two tests
  \<open>hasattr(self, "classification_heads")\<close> of the upgrade are true.
\<close>

record model =
  self_args :: model_args
  classification_heads :: "(string \<times> head) list"
  rng :: nat
  logged :: "diag list"

subsection \<open>Building and registering a head (source lines 221--245, 348--377)\<close>

text \<open>A parameter of the given shape, initialised from the generator state \<open>seed\<close>.\<close>

definition fresh :: "nat list \<Rightarrow> nat \<Rightarrow> tensor" where
  "fresh dims seed = \<lparr>shape = dims, content = seed\<rparr>"

text \<open>
  Two tables of the libraries the code calls, which are not part of this repository:
  the activation names that \<open>utils.get_activation_fn\<close> knows, and the attribute
  names of an \<open>nn.ModuleDict\<close> object (\<open>train\<close>, \<open>keys\<close>, ...), under which it
  refuses to store a module. They are a parameter of everything that builds or
  registers a head.
\<close>

record library =
  activation_fns :: "string list"
  module_dict_attributes :: "string list"

text \<open>
  The constructor, statement by statement. \<open>nn.Linear(i, o)\<close> owns \<open>weight\<close> of
  shape \<open>[o, i]\<close> and \<open>bias\<close> of shape \<open>[o]\<close>. \<open>utils.get_activation_fn\<close> raises
  \<open>RuntimeError\<close> for a name it does not know. \<open>nn.Dropout\<close> raises \<open>ValueError\<close>
  for a probability outside \<open>[0, 1]\<close>. \<open>apply_quant_noise_\<close> returns the layer as it
  is when the noise is not positive; otherwise it asserts that the block size
  divides the input features of the layer, here the inner dimension (the remainder
  by a block size of \<open>0\<close> raises \<open>ZeroDivisionError\<close>), and adds a hook and no
  parameter. Spectral normalisation replaces the parameter \<open>weight\<close> by
  \<open>weight_orig\<close> and adds the buffers \<open>weight_u\<close> and \<open>weight_v\<close>.
\<close>

definition SMLPClassificationHead ::
  "library \<Rightarrow> nat \<Rightarrow> nat \<Rightarrow> nat \<Rightarrow> string \<Rightarrow> rat \<Rightarrow> rat \<Rightarrow> nat \<Rightarrow> bool \<Rightarrow> string \<Rightarrow> nat
     \<Rightarrow> error + head" where
  "SMLPClassificationHead lib input_dim inner_dim num_classes activation_fn dropout_p
       q_noise qn_block_size do_spectral_norm sen_rep seed =
     (if activation_fn \<notin> set (activation_fns lib) then Inl RuntimeError
      else if dropout_p < 0 \<or> 1 < dropout_p then Inl ValueError
      else if 0 < q_noise \<and> qn_block_size = 0 then Inl ZeroDivisionError
      else if 0 < q_noise \<and> inner_dim mod qn_block_size \<noteq> 0 then Inl AssertionError
      else if do_spectral_norm \<and> q_noise \<noteq> 0 then Inl NotImplementedError
      else Inr \<lparr>dense_out_features = inner_dim,
                out_proj_out_features = num_classes,
                head_activation_fn = activation_fn,
                head_dropout = dropout_p,
                head_sen_rep_type = sen_rep,
                head_state =
                  [(''dense.weight'', fresh [inner_dim, input_dim] seed),
                   (''dense.bias'', fresh [inner_dim] (seed + 1))] @
                  (if do_spectral_norm
                   then [(''out_proj.bias'', fresh [num_classes] (seed + 3)),
                         (''out_proj.weight_orig'', fresh [num_classes, inner_dim] (seed + 2)),
                         (''out_proj.weight_u'', fresh [num_classes] (seed + 4)),
                         (''out_proj.weight_v'', fresh [inner_dim] (seed + 5))]
                   else [(''out_proj.weight'', fresh [num_classes, inner_dim] (seed + 2)),
                         (''out_proj.bias'', fresh [num_classes] (seed + 3))])\<rparr>)"

text \<open>
  \<open>self.classification_heads[name] = ...\<close> on an \<open>nn.ModuleDict\<close> raises \<open>KeyError\<close>
  for a name that is an attribute of the object and not one of its modules, for a
  name with a dot and for the empty name.
\<close>

definition name_refused :: "library \<Rightarrow> (string \<times> head) list \<Rightarrow> string \<Rightarrow> bool" where
  "name_refused lib heads name =
     ((name \<in> set (module_dict_attributes lib) \<and> name \<notin> set (map fst heads))
      \<or> CHR ''.'' \<in> set name \<or> name = [])"

text \<open>\<open>inner_dim or self.args.encoder_embed_dim\<close>: \<open>None\<close> and \<open>0\<close> are falsy.\<close>

definition inner_dim_or :: "nat option \<Rightarrow> nat \<Rightarrow> nat" where
  "inner_dim_or inner_dim embed_dim =
     (case inner_dim of None \<Rightarrow> embed_dim | Some n \<Rightarrow> if n = 0 then embed_dim else n)"

text \<open>
  The warning of a re-registration, when the name is taken and the requested
  numbers differ from the \<open>out_features\<close> of the head in place.
\<close>

definition reregister_warning :: "model \<Rightarrow> string \<Rightarrow> nat \<Rightarrow> nat option \<Rightarrow> diag list" where
  "reregister_warning self name num_classes inner_dim =
     (case map_of (classification_heads self) name of
        None \<Rightarrow> []
      | Some prev \<Rightarrow>
          if num_classes \<noteq> out_proj_out_features prev
             \<or> inner_dim \<noteq> Some (dense_out_features prev)
          then [ReRegistering name num_classes (out_proj_out_features prev)
                  inner_dim (dense_out_features prev)]
          else [])"

text \<open>
  The keyword arguments of the constructor call are evaluated first: an attribute
  missing from \<open>self.args\<close> raises \<open>AttributeError\<close>. The warning, if any, is
  logged before the head is built; the head is then built and stored under the
  name, whether or not the name was taken. The callers pass a number of classes;
  its default \<open>None\<close> is not modelled.
\<close>

definition register_classification_head ::
  "library \<Rightarrow> model \<Rightarrow> string \<Rightarrow> nat \<Rightarrow> nat option \<Rightarrow> error + model" where
  "register_classification_head lib self name num_classes inner_dim =
     (case (encoder_embed_dim (self_args self), pooler_activation_fn (self_args self),
            pooler_dropout (self_args self), quant_noise_pq (self_args self),
            quant_noise_pq_block_size (self_args self),
            spectral_norm_classification_head (self_args self),
            sen_rep_type (self_args self)) of
        (Some embed_dim, Some act, Some p, Some q_noise, Some block, Some spectral, Some rep) \<Rightarrow>
          (case SMLPClassificationHead lib embed_dim (inner_dim_or inner_dim embed_dim)
                  num_classes act p q_noise block spectral rep (rng self) of
             Inl e \<Rightarrow> Inl e
           | Inr h \<Rightarrow>
               if name_refused lib (classification_heads self) name then Inl KeyError
               else
                 Inr (self\<lparr>classification_heads :=
                             AList.update name h (classification_heads self),
                           rng := rng self + 6,
                           logged := logged self
                             @ reregister_warning self name num_classes inner_dim
                             @ [UsingSentenceRepresentation rep]\<rparr>))
      | _ \<Rightarrow> Inl AttributeError)"

subsection \<open>\<open>upgrade_state_dict_named\<close> (source lines 252--317)\<close>

text \<open>\<open>prefix = name + "." if name != "" else ""\<close>\<close>

definition prefix_of :: "string \<Rightarrow> string" where
  "prefix_of name = (if name \<noteq> [] then name @ ''.'' else [])"

text \<open>\<open>prefix + "classification_heads."\<close>\<close>

definition heads_prefix :: "string \<Rightarrow> string" where
  "heads_prefix pfx = pfx @ ''classification_heads.''"

text \<open>\<open>new_k = prefix + "encoder" + k[len(prefix + "decoder"):]\<close>\<close>

definition new_key :: "string \<Rightarrow> string \<Rightarrow> string" where
  "new_key pfx k = pfx @ ''encoder'' @ drop (length (pfx @ ''decoder'')) k"

text \<open>
  The first loop runs over a copy of the keys. For a key that starts with
  \<open>prefix + "decoder"\<close> it stores the value under the new key and deletes the old
  key; the old key was just read, so the deletion finds it.
\<close>

fun rename_decoder :: "string \<Rightarrow> string list \<Rightarrow> state_dict \<Rightarrow> error + state_dict" where
  "rename_decoder pfx [] state_dict = Inr state_dict"
| "rename_decoder pfx (k # ks) state_dict =
     (if startswith k (pfx @ ''decoder'')
      then (case getitem state_dict k of
              Inl e \<Rightarrow> Inl e
            | Inr v \<Rightarrow>
                rename_decoder pfx ks
                  (AList.delete k (AList.update (new_key pfx k) v state_dict)))
      else rename_decoder pfx ks state_dict)"

text \<open>\<open>head_name = k[len(prefix + "classification_heads."):].split(".")[0]\<close>\<close>

definition head_name_of :: "string \<Rightarrow> string \<Rightarrow> string" where
  "head_name_of pfx k =
     takeWhile (\<lambda>c. c \<noteq> CHR ''.'') (drop (length (heads_prefix pfx)) k)"

text \<open>The two numbers read from the blob for a head name (source lines 277--282).\<close>

definition persisted_dims :: "string \<Rightarrow> state_dict \<Rightarrow> string \<Rightarrow> error + nat \<times> nat" where
  "persisted_dims pfx state_dict head_name =
     (case getitem state_dict (heads_prefix pfx @ head_name @ ''.out_proj.weight'') of
        Inl e \<Rightarrow> Inl e
      | Inr w \<Rightarrow>
          (case size0 w of
             Inl e \<Rightarrow> Inl e
           | Inr num_classes \<Rightarrow>
               (case getitem state_dict
                       (heads_prefix pfx @ head_name @ ''.dense.weight'') of
                  Inl e \<Rightarrow> Inl e
                | Inr d \<Rightarrow>
                    (case size0 d of
                       Inl e \<Rightarrow> Inl e
                     | Inr inner_dim \<Rightarrow> Inr (num_classes, inner_dim)))))"

text \<open>\<open>getattr(self.args, "load_checkpoint_heads", False)\<close>\<close>

definition load_heads :: "model \<Rightarrow> bool" where
  "load_heads self = (case load_checkpoint_heads (self_args self) of None \<Rightarrow> False | Some b \<Rightarrow> b)"

text \<open>
  The second loop runs over the keys of the blob, which it does not change; it may
  register heads on the model and collects \<open>keys_to_delete\<close>. \<open>current_head_names\<close>
  is a live view of the model's heads, so a head registered for one key is known
  for the keys after it.
\<close>

fun handle_heads ::
  "library \<Rightarrow> string \<Rightarrow> state_dict \<Rightarrow> string list \<Rightarrow> model \<Rightarrow> string list
     \<Rightarrow> error + model \<times> string list" where
  "handle_heads lib pfx state_dict [] self keys_to_delete = Inr (self, keys_to_delete)"
| "handle_heads lib pfx state_dict (k # ks) self keys_to_delete =
     (if \<not> startswith k (heads_prefix pfx)
      then handle_heads lib pfx state_dict ks self keys_to_delete
      else
        (case persisted_dims pfx state_dict (head_name_of pfx k) of
           Inl e \<Rightarrow> Inl e
         | Inr (num_classes, inner_dim) \<Rightarrow>
             if load_heads self
             then
               (if head_name_of pfx k \<notin> set (map fst (classification_heads self))
                then (case register_classification_head lib self (head_name_of pfx k)
                             num_classes (Some inner_dim) of
                        Inl e \<Rightarrow> Inl e
                      | Inr self' \<Rightarrow> handle_heads lib pfx state_dict ks self' keys_to_delete)
                else handle_heads lib pfx state_dict ks self keys_to_delete)
             else
               (case map_of (classification_heads self) (head_name_of pfx k) of
                  None \<Rightarrow>
                    handle_heads lib pfx state_dict ks
                      (self\<lparr>logged := logged self
                               @ [DeletingAbsentHead (head_name_of pfx k) k]\<rparr>)
                      (keys_to_delete @ [k])
                | Some h \<Rightarrow>
                    if num_classes \<noteq> out_proj_out_features h
                       \<or> inner_dim \<noteq> dense_out_features h
                    then handle_heads lib pfx state_dict ks
                           (self\<lparr>logged := logged self
                                    @ [DeletingDifferentDims (head_name_of pfx k) k]\<rparr>)
                           (keys_to_delete @ [k])
                    else handle_heads lib pfx state_dict ks self keys_to_delete)))"

text \<open>\<open>for k in keys_to_delete: del state_dict[k]\<close>\<close>

definition delete_keys :: "string list \<Rightarrow> state_dict \<Rightarrow> state_dict" where
  "delete_keys ks state_dict = fold AList.delete ks state_dict"

text \<open>\<open>self.classification_heads.state_dict()\<close>: every head's entries under its name.\<close>

definition heads_state_dict :: "(string \<times> head) list \<Rightarrow> (string \<times> tensor) list" where
  "heads_state_dict heads =
     concat (map (\<lambda>(name, h). map (\<lambda>(k, v). (name @ ''.'' @ k, v)) (head_state h)) heads)"

text \<open>The third loop: entries of the current heads that the blob lacks are added.\<close>

fun copy_heads ::
  "string \<Rightarrow> (string \<times> tensor) list \<Rightarrow> state_dict \<Rightarrow> diag list \<Rightarrow> state_dict \<times> diag list" where
  "copy_heads pfx [] state_dict lg = (state_dict, lg)"
| "copy_heads pfx ((k, v) # cur_state) state_dict lg =
     (if heads_prefix pfx @ k \<notin> set (map fst state_dict)
      then copy_heads pfx cur_state
             (AList.update (heads_prefix pfx @ k) v state_dict)
             (lg @ [Overwriting (heads_prefix pfx @ k)])
      else copy_heads pfx cur_state state_dict lg)"

text \<open>
  The whole method. The call \<open>super().upgrade_state_dict_named(state_dict, name)\<close>
  runs the upgrade hooks of the child modules, which are not part of this file; it
  is the parameter \<open>upgrade_children\<close>. The Python method changes the model and the
  blob in place and returns nothing; here it returns the model, the blob and the
  final \<open>keys_to_delete\<close>.
\<close>

definition upgrade_state_dict_named ::
  "library \<Rightarrow> (state_dict \<Rightarrow> string \<Rightarrow> state_dict) \<Rightarrow> model \<Rightarrow> state_dict \<Rightarrow> string
     \<Rightarrow> error + model \<times> state_dict \<times> string list" where
  "upgrade_state_dict_named lib upgrade_children self state_dict name =
     (case rename_decoder (prefix_of name) (map fst state_dict) state_dict of
        Inl e \<Rightarrow> Inl e
      | Inr renamed \<Rightarrow>
          (case handle_heads lib (prefix_of name) (upgrade_children renamed name)
                  (map fst (upgrade_children renamed name)) self [] of
             Inl e \<Rightarrow> Inl e
           | Inr (self', keys_to_delete) \<Rightarrow>
               (case copy_heads (prefix_of name)
                       (heads_state_dict (classification_heads self'))
                       (delete_keys keys_to_delete (upgrade_children renamed name))
                       (logged self') of
                  (state_dict', lg) \<Rightarrow>
                    Inr (self'\<lparr>logged := lg\<rparr>, state_dict', keys_to_delete))))"

text \<open>
  Modelled from the spec: the upgrade hooks of the child modules are missing (the
  classes of this file define none, and the sentence encoder is not part of it). The
  spec gives the migration the three steps above and no other, so the children
  leave the blob as it is.
\<close>

definition no_child_upgrade :: "state_dict \<Rightarrow> string \<Rightarrow> state_dict" where
  "no_child_upgrade state_dict name = state_dict"

subsection \<open>The forward pass (source lines 171--186, 379--396, 436--481)\<close>

text \<open>
  The numeric operations belong to the tensor library and to the sentence encoder,
  which are not part of this file: they are the fields of \<open>numeric\<close>, uninterpreted
  functions on tokens \<open>'a\<close> and tensors \<open>'x\<close>. Only the control flow of the source is
  modelled.
\<close>

record ('a, 'x) numeric =
  sentence_encoder :: "'a \<Rightarrow> 'x option \<Rightarrow> bool \<Rightarrow> 'x list"
  transpose01 :: "'x \<Rightarrow> 'x"
  lm_head :: "'x \<Rightarrow> 'x option \<Rightarrow> 'x"
  sum_over_lengths :: "'x \<Rightarrow> 'x \<Rightarrow> 'x"
  mean_dim1 :: "'x \<Rightarrow> 'x"
  first_token :: "'x \<Rightarrow> 'x"
  dropout :: "rat \<Rightarrow> 'x \<Rightarrow> 'x"
  dense :: "head \<Rightarrow> 'x \<Rightarrow> 'x"
  activation :: "string \<Rightarrow> 'x \<Rightarrow> 'x"
  out_proj :: "head \<Rightarrow> 'x \<Rightarrow> 'x"

text \<open>The keyword arguments the code looks at.\<close>

record 'x kwargs =
  src_lengths :: "'x option"
  masked_tokens :: "'x option"

definition extract_features ::
  "('a, 'x) numeric \<Rightarrow> 'a \<Rightarrow> 'x option \<Rightarrow> bool \<Rightarrow> error + 'x \<times> 'x list option" where
  "extract_features ops src_tokens lengths return_all_hiddens =
     (case sentence_encoder ops src_tokens lengths (\<not> return_all_hiddens) of
        [] \<Rightarrow> Inl IndexError
      | first # rest \<Rightarrow>
          Inr (transpose01 ops first,
               if return_all_hiddens then Some (first # rest) else None))"

definition output_layer :: "('a, 'x) numeric \<Rightarrow> 'x \<Rightarrow> 'x option \<Rightarrow> 'x" where
  "output_layer ops features masked = lm_head ops features masked"

text \<open>\<open>RobertaEncoder.forward\<close>\<close>

definition encoder_forward ::
  "('a, 'x) numeric \<Rightarrow> 'a \<Rightarrow> bool \<Rightarrow> bool \<Rightarrow> 'x kwargs \<Rightarrow> error + 'x \<times> 'x list option" where
  "encoder_forward ops src_tokens features_only return_all_hiddens kw =
     (case extract_features ops src_tokens (src_lengths kw) return_all_hiddens of
        Inl e \<Rightarrow> Inl e
      | Inr (x, extra) \<Rightarrow>
          Inr (if \<not> features_only then output_layer ops x (masked_tokens kw) else x, extra))"

text \<open>\<open>SMLPClassificationHead.forward\<close>\<close>

definition head_forward :: "('a, 'x) numeric \<Rightarrow> head \<Rightarrow> 'x \<Rightarrow> 'x kwargs \<Rightarrow> error + 'x" where
  "head_forward ops h features kw =
     (case (if head_sen_rep_type h = ''mp''
            then (case src_lengths kw of
                    Some lengths \<Rightarrow> Inr (sum_over_lengths ops features lengths)
                  | None \<Rightarrow> Inr (mean_dim1 ops features))
            else if head_sen_rep_type h = ''cls'' then Inr (first_token ops features)
            else Inl NotImplementedError) of
        Inl e \<Rightarrow> Inl e
      | Inr x \<Rightarrow>
          Inr (out_proj ops h
                 (dropout ops (head_dropout h)
                    (activation ops (head_activation_fn h)
                       (dense ops h (dropout ops (head_dropout h) x))))))"

text \<open>\<open>SMLP_MLM_Model.forward\<close>\<close>

definition forward ::
  "('a, 'x) numeric \<Rightarrow> model \<Rightarrow> 'a \<Rightarrow> bool \<Rightarrow> bool \<Rightarrow> string option \<Rightarrow> 'x kwargs
     \<Rightarrow> error + 'x \<times> 'x list option" where
  "forward ops self src_tokens features_only return_all_hiddens classification_head_name kw =
     (case encoder_forward ops src_tokens
             (if classification_head_name \<noteq> None then True else features_only)
             return_all_hiddens kw of
        Inl e \<Rightarrow> Inl e
      | Inr (x, extra) \<Rightarrow>
          (case classification_head_name of
             None \<Rightarrow> Inr (x, extra)
           | Some name \<Rightarrow>
               (case getitem (classification_heads self) name of
                  Inl e \<Rightarrow> Inl e
                | Inr h \<Rightarrow>
                    (case head_forward ops h x kw of
                       Inl e \<Rightarrow> Inl e
                     | Inr y \<Rightarrow> Inr (y, extra)))))"

subsection \<open>Notions used to state the properties\<close>

text \<open>The legacy key that is rewritten to a given key.\<close>

definition old_key :: "string \<Rightarrow> string \<Rightarrow> string" where
  "old_key pfx k = pfx @ ''decoder'' @ drop (length (pfx @ ''encoder'')) k"

text \<open>
  With the loading of checkpoint heads switched off, a key of the heads namespace is
  put on \<open>keys_to_delete\<close> when its head is unknown to the model or known with
  other numbers; \<open>stale_message\<close> is the warning logged for it.
\<close>

definition stale :: "string \<Rightarrow> state_dict \<Rightarrow> (string \<times> head) list \<Rightarrow> string \<Rightarrow> bool" where
  "stale pfx sd heads k =
     (startswith k (heads_prefix pfx) \<and>
      (case map_of heads (head_name_of pfx k) of
         None \<Rightarrow> True
       | Some h \<Rightarrow>
           (case persisted_dims pfx sd (head_name_of pfx k) of
              Inl e \<Rightarrow> False
            | Inr (num_classes, inner_dim) \<Rightarrow>
                num_classes \<noteq> out_proj_out_features h \<or> inner_dim \<noteq> dense_out_features h)))"

definition stale_message :: "string \<Rightarrow> (string \<times> head) list \<Rightarrow> string \<Rightarrow> diag" where
  "stale_message pfx heads k =
     (case map_of heads (head_name_of pfx k) of
        None \<Rightarrow> DeletingAbsentHead (head_name_of pfx k) k
      | Some h \<Rightarrow> DeletingDifferentDims (head_name_of pfx k) k)"

text \<open>
  The arguments allow a head of the given inner dimension to be built: every
  attribute the registration reads is set, the activation is known to the library,
  the dropout lies in \<open>[0, 1]\<close>, quantisation noise is off or its block size divides
  the inner dimension, and spectral normalisation is not combined with
  quantisation noise.
\<close>

definition can_build :: "library \<Rightarrow> model_args \<Rightarrow> nat option \<Rightarrow> bool" where
  "can_build lib a inner_dim =
     (case (encoder_embed_dim a, pooler_activation_fn a, pooler_dropout a, quant_noise_pq a,
            quant_noise_pq_block_size a, spectral_norm_classification_head a,
            sen_rep_type a) of
        (Some embed_dim, Some act, Some p, Some q_noise, Some block, Some spectral, Some rep) \<Rightarrow>
          act \<in> set (activation_fns lib) \<and> 0 \<le> p \<and> p \<le> 1
          \<and> (q_noise \<le> 0 \<or> (block \<noteq> 0 \<and> inner_dim_or inner_dim embed_dim mod block = 0))
          \<and> \<not> (spectral \<and> q_noise \<noteq> 0)
      | _ \<Rightarrow> False)"

text \<open>
  A \<open>ModuleDict\<close> of the tensor library has unique names, none of which contains
  a dot.
\<close>

definition module_names_ok :: "(string \<times> head) list \<Rightarrow> bool" where
  "module_names_ok heads =
     (distinct (map fst heads) \<and> (\<forall>n \<in> set (map fst heads). CHR ''.'' \<notin> set n))"

subsection \<open>Concrete models and blobs\<close>

text \<open>
  A library that knows the usual activation names and some of the attribute names
  of a module dictionary.
\<close>

definition example_lib :: library where
  "example_lib =
     \<lparr>activation_fns = [''relu'', ''gelu'', ''gelu_fast'', ''gelu_accurate'', ''tanh'', ''linear''],
      module_dict_attributes =
        [''train'', ''eval'', ''training'', ''keys'', ''items'', ''values'', ''pop'',
         ''clear'', ''update'', ''forward'', ''state_dict'', ''parameters'']\<rparr>"

definition example_args :: model_args where
  "example_args =
     \<lparr>encoder_embed_dim = Some 4, pooler_activation_fn = Some ''tanh'',
      pooler_dropout = Some 0, quant_noise_pq = Some 0, quant_noise_pq_block_size = Some 8,
      spectral_norm_classification_head = Some False, sen_rep_type = Some ''cls'',
      load_checkpoint_heads = None\<rparr>"

text \<open>A model without heads, and the same model loading checkpoint heads.\<close>

definition bare_model :: model where
  "bare_model = \<lparr>self_args = example_args, classification_heads = [], rng = 0, logged = []\<rparr>"

definition bare_loading_model :: model where
  "bare_loading_model = bare_model\<lparr>self_args := example_args\<lparr>load_checkpoint_heads := Some True\<rparr>\<rparr>"

text \<open>A head with two classes and inner dimension four, as registration builds it.\<close>

definition sst2_head :: "nat \<Rightarrow> head" where
  "sst2_head seed =
     \<lparr>dense_out_features = 4, out_proj_out_features = 2, head_activation_fn = ''tanh'',
      head_dropout = 0, head_sen_rep_type = ''cls'',
      head_state =
        [(''dense.weight'', fresh [4, 4] seed),
         (''dense.bias'', fresh [4] (seed + 1)),
         (''out_proj.weight'', fresh [2, 4] (seed + 2)),
         (''out_proj.bias'', fresh [2] (seed + 3))]\<rparr>"

text \<open>The model after \<open>register_classification_head("sst2", 2, 4)\<close>.\<close>

definition sst2_model :: model where
  "sst2_model =
     \<lparr>self_args = example_args, classification_heads = [(''sst2'', sst2_head 0)], rng = 6,
      logged = [UsingSentenceRepresentation ''cls'']\<rparr>"

definition sst2_loading_model :: model where
  "sst2_loading_model = sst2_model\<lparr>self_args := example_args\<lparr>load_checkpoint_heads := Some True\<rparr>\<rparr>"


text \<open>A blob with legacy keys, one of which collides with a current key.\<close>

definition legacy_blob :: state_dict where
  "legacy_blob =
     [(''encoder.lm_head.bias'', fresh [8] 100),
      (''decoder.lm_head.bias'', fresh [8] 101),
      (''decoder_embed.weight'', fresh [8, 4] 102),
      (''version.note'', fresh [1] 103)]"

definition legacy_blob_upgraded :: state_dict where
  "legacy_blob_upgraded =
     [(''encoder.lm_head.bias'', fresh [8] 101),
      (''version.note'', fresh [1] 103),
      (''encoder_embed.weight'', fresh [8, 4] 102)]"

text \<open>A blob whose \<open>sst2\<close> head has three classes.\<close>

definition sst2_blob :: state_dict where
  "sst2_blob =
     [(''classification_heads.sst2.out_proj.weight'', fresh [3, 4] 200),
      (''classification_heads.sst2.out_proj.bias'', fresh [3] 201),
      (''classification_heads.sst2.dense.weight'', fresh [4, 4] 202),
      (''classification_heads.sst2.dense.bias'', fresh [4] 203)]"

text \<open>A blob with a head named \<open>mnli\<close>.\<close>

definition mnli_blob :: state_dict where
  "mnli_blob =
     [(''classification_heads.mnli.out_proj.weight'', fresh [3, 4] 300),
      (''classification_heads.mnli.dense.weight'', fresh [4, 4] 301)]"

text \<open>A blob with a key of a head that has no weights.\<close>

definition weightless_blob :: state_dict where
  "weightless_blob = [(''classification_heads.cola.dense.bias'', fresh [4] 400)]"

text \<open>What the upgrade yields on these inputs.\<close>

definition sst2_dropped :: "string list" where
  "sst2_dropped =
     [''classification_heads.sst2.out_proj.weight'',
      ''classification_heads.sst2.out_proj.bias'',
      ''classification_heads.sst2.dense.weight'',
      ''classification_heads.sst2.dense.bias'']"

definition sst2_blob_backfilled :: state_dict where
  "sst2_blob_backfilled =
     [(''classification_heads.sst2.dense.weight'', fresh [4, 4] 0),
      (''classification_heads.sst2.dense.bias'', fresh [4] 1),
      (''classification_heads.sst2.out_proj.weight'', fresh [2, 4] 2),
      (''classification_heads.sst2.out_proj.bias'', fresh [2] 3)]"

definition sst2_model_after :: model where
  "sst2_model_after =
     sst2_model\<lparr>logged := logged sst2_model
       @ map (DeletingDifferentDims ''sst2'') sst2_dropped
       @ map Overwriting (map fst sst2_blob_backfilled)\<rparr>"

definition mnli_head :: head where
  "mnli_head =
     \<lparr>dense_out_features = 4, out_proj_out_features = 3, head_activation_fn = ''tanh'',
      head_dropout = 0, head_sen_rep_type = ''cls'',
      head_state =
        [(''dense.weight'', fresh [4, 4] 0),
         (''dense.bias'', fresh [4] 1),
         (''out_proj.weight'', fresh [3, 4] 2),
         (''out_proj.bias'', fresh [3] 3)]\<rparr>"

definition mnli_model_loaded :: model where
  "mnli_model_loaded =
     bare_loading_model\<lparr>classification_heads := [(''mnli'', mnli_head)], rng := 6,
       logged := [UsingSentenceRepresentation ''cls'',
                  Overwriting ''classification_heads.mnli.dense.bias'',
                  Overwriting ''classification_heads.mnli.out_proj.bias'']\<rparr>"

definition mnli_blob_loaded :: state_dict where
  "mnli_blob_loaded =
     mnli_blob @
     [(''classification_heads.mnli.dense.bias'', fresh [4] 1),
      (''classification_heads.mnli.out_proj.bias'', fresh [3] 3)]"

definition mnli_model_dropped :: model where
  "mnli_model_dropped =
     bare_model\<lparr>logged := map (DeletingAbsentHead ''mnli'') (map fst mnli_blob)\<rparr>"

text \<open>Uninterpreted numeric operations, instantiated on numbers.\<close>

definition toy_ops :: "(nat, nat) numeric" where
  "toy_ops =
     \<lparr>sentence_encoder = (\<lambda>tokens lengths last_only. [tokens]),
      transpose01 = (\<lambda>x. x),
      lm_head = (\<lambda>x masked. x + 1000),
      sum_over_lengths = (\<lambda>x lengths. x + lengths),
      mean_dim1 = (\<lambda>x. x),
      first_token = (\<lambda>x. x + 1),
      dropout = (\<lambda>p x. x),
      dense = (\<lambda>h x. x * 2),
      activation = (\<lambda>name x. x),
      out_proj = (\<lambda>h x. x + out_proj_out_features h)\<rparr>"


text \<open>
  A blob whose head \<open>rte\<close> has a dense weight without rows, and what the upgrade
  yields on it when checkpoint heads are loaded.
\<close>

definition rte_blob :: state_dict where
  "rte_blob =
     [(''classification_heads.rte.out_proj.weight'', fresh [2, 0] 500),
      (''classification_heads.rte.dense.weight'', fresh [0, 4] 501)]"

definition rte_head :: head where
  "rte_head =
     \<lparr>dense_out_features = 4, out_proj_out_features = 2, head_activation_fn = ''tanh'',
      head_dropout = 0, head_sen_rep_type = ''cls'',
      head_state =
        [(''dense.weight'', fresh [4, 4] 0),
         (''dense.bias'', fresh [4] 1),
         (''out_proj.weight'', fresh [2, 4] 2),
         (''out_proj.bias'', fresh [2] 3)]\<rparr>"

definition rte_model_loaded :: model where
  "rte_model_loaded =
     bare_loading_model\<lparr>classification_heads := [(''rte'', rte_head)], rng := 6,
       logged := [UsingSentenceRepresentation ''cls'',
                  Overwriting ''classification_heads.rte.dense.bias'',
                  Overwriting ''classification_heads.rte.out_proj.bias'']\<rparr>"

definition rte_blob_loaded :: state_dict where
  "rte_blob_loaded =
     rte_blob @
     [(''classification_heads.rte.dense.bias'', fresh [4] 1),
      (''classification_heads.rte.out_proj.bias'', fresh [2] 3)]"

section \<open>Properties of the presets\<close>

subsection \<open>Facts about running lines\<close>

lemma assign_all_append:
  "assign_all (xs @ ys) args = assign_all ys (assign_all xs args)"
  by (induction xs arbitrary: args) auto

lemma assign_all_untouched:
  "k \<notin> fst ` set lines \<Longrightarrow> assign_all lines args k = args k"
  by (induction lines arbitrary: args) (auto simp: assign_def)

lemma assign_all_keeps:
  "args k = Some v \<Longrightarrow> \<forall>l \<in> set lines. fst l = k \<longrightarrow> plain l
     \<Longrightarrow> assign_all lines args k = Some v"
proof (induction lines arbitrary: args)
  case Nil
  then show ?case by simp
next
  case (Cons l lines)
  obtain t s d where l: "l = (t, s, d)" by (cases l)
  have "assign t s d args k = Some v"
    using Cons.prems l by (auto simp: assign_def getattr_def plain_def)
  with Cons show ?case by (simp add: l)
qed

lemma assign_all_sets_target:
  "l \<in> set lines \<Longrightarrow> assign_all lines args (fst l) \<noteq> None"
proof (induction lines arbitrary: args l)
  case Nil
  then show ?case by simp
next
  case (Cons x lines)
  obtain t s d where x: "x = (t, s, d)" by (cases x)
  show ?case
  proof (cases "l \<in> set lines")
    case True
    with Cons.IH show ?thesis by (simp add: x)
  next
    case False
    with Cons.prems have lx: "l = x" by simp
    show ?thesis
    proof (cases "t \<in> fst ` set lines")
      case True
      then obtain l' where l': "l' \<in> set lines" "fst l' = t" by auto
      from Cons.IH [OF l'(1), of "assign t s d args"] l'(2) show ?thesis
        by (simp add: x lx)
    next
      case False
      then show ?thesis
        by (simp add: x lx assign_all_untouched) (simp add: assign_def)
    qed
  qed
qed

lemma assign_all_first_default:
  "args k = None \<Longrightarrow> \<forall>l \<in> set lines. fst l = k \<longrightarrow> plain l
     \<Longrightarrow> assign_all lines args k = map_of (map (\<lambda>l. (fst l, snd (snd l))) lines) k"
proof (induction lines arbitrary: args)
  case Nil
  then show ?case by simp
next
  case (Cons l lines)
  obtain t s d where l: "l = (t, s, d)" by (cases l)
  show ?case
  proof (cases "t = k")
    case True
    with Cons.prems l have "s = k" by (simp add: plain_def)
    with True Cons.prems have "assign t s d args k = Some d"
      by (simp add: assign_def getattr_def)
    moreover have "\<forall>l \<in> set lines. fst l = k \<longrightarrow> plain l" using Cons.prems by simp
    ultimately have "assign_all lines (assign t s d args) k = Some d"
      by (rule assign_all_keeps)
    with True show ?thesis by (simp add: l)
  next
    case False
    with Cons.prems have "assign t s d args k = None" by (simp add: assign_def)
    with Cons.IH [of "assign t s d args"] Cons.prems False show ?thesis by (simp add: l)
  qed
qed

lemma assign_all_foreign:
  "(t, s, d) \<in> set lines \<Longrightarrow> s \<notin> fst ` set lines
     \<Longrightarrow> \<forall>l \<in> set lines. fst l = t \<longrightarrow> plain l \<or> l = (t, s, d)
     \<Longrightarrow> assign_all lines args t = Some (getattr args s d)"
proof (induction lines arbitrary: args)
  case Nil
  then show ?case by simp
next
  case (Cons x lines)
  obtain t1 s1 d1 where x: "x = (t1, s1, d1)" by (cases x)
  from Cons.prems(2) x have s1: "s \<noteq> t1" and s2: "s \<notin> fst ` set lines" by auto
  have src: "getattr (assign t1 s1 d1 args) s d = getattr args s d"
    using s1 by (simp add: getattr_def assign_def)
  show ?case
  proof (cases "(t, s, d) \<in> set lines")
    case True
    from Cons.IH [OF True s2, of "assign t1 s1 d1 args"] Cons.prems(3) src
    show ?thesis by (simp add: x)
  next
    case False
    with Cons.prems(1) have xt: "x = (t, s, d)" by simp
    have now: "assign t s d args t = Some (getattr args s d)" by (simp add: assign_def)
    have "\<forall>l \<in> set lines. fst l = t \<longrightarrow> plain l" using Cons.prems(3) False by auto
    with now have "assign_all lines (assign t s d args) t = Some (getattr args s d)"
      by (rule assign_all_keeps)
    then show ?thesis using xt by simp
  qed
qed

lemma assign_all_stable:
  "\<forall>l \<in> set lines. args (fst l) = Some (getattr args (fst (snd l)) (snd (snd l)))
     \<Longrightarrow> assign_all lines args = args"
proof (induction lines arbitrary: args)
  case Nil
  then show ?case by simp
next
  case (Cons l lines)
  obtain t s d where l: "l = (t, s, d)" by (cases l)
  from Cons.prems l have same: "assign t s d args = args"
    by (auto simp: assign_def)
  have "assign_all lines args = args"
    by (rule Cons.IH) (use Cons.prems in simp)
  with same show ?case by (simp add: l)
qed

lemma orderly_idem:
  assumes "orderly lines"
  shows "assign_all lines (assign_all lines args) = assign_all lines args"
proof (rule assign_all_stable, rule ballI)
  fix l assume mem: "l \<in> set lines"
  obtain t s d where l: "l = (t, s, d)" by (cases l)
  let ?r = "assign_all lines args"
  from assms mem have shape: "plain l \<or> l = typo_line"
    by (auto simp: orderly_def list_all_iff)
  show "?r (fst l) = Some (getattr ?r (fst (snd l)) (snd (snd l)))"
  proof (cases "plain l")
    case True
    from assign_all_sets_target [OF mem, of args] obtain v where "?r (fst l) = Some v" by auto
    with True show ?thesis by (simp add: plain_def getattr_def)
  next
    case False
    with shape have lt: "l = typo_line" by simp
    have src: "s \<notin> fst ` set lines" using assms lt l by (simp add: orderly_def typo_line_def)
    have "\<forall>l' \<in> set lines. fst l' = t \<longrightarrow> plain l' \<or> l' = (t, s, d)"
      using assms lt l by (auto simp: orderly_def list_all_iff)
    with mem l src have "?r t = Some (getattr args s d)"
      by (simp add: assign_all_foreign)
    moreover have "?r s = args s" using src by (rule assign_all_untouched)
    ultimately show ?thesis by (simp add: l getattr_def)
  qed
qed

lemma orderly_append: "orderly (xs @ ys) = (orderly xs \<and> orderly ys)"
  by (auto simp: orderly_def)

lemma orderly_base: "orderly base_lines"
  by (simp add: orderly_def base_lines_def plain_def typo_line_def)
lemma orderly_complex: "orderly complex_lines"
  by (simp add: orderly_def complex_lines_def plain_def typo_line_def)
lemma orderly_task: "orderly (task_lines p n)"
  by (simp add: orderly_def task_lines_def plain_def typo_line_def)
lemma orderly_small: "orderly gate_lines" "orderly mp_lines" "orderly mnli_lines"
  "orderly mnli_gate_lines" "orderly complex_gate_lines"
  by (simp_all add: orderly_def gate_lines_def mp_lines_def mnli_lines_def
      mnli_gate_lines_def complex_gate_lines_def plain_def typo_line_def)

lemma preset_lines_orderly: "preset_lines name = Some lines \<Longrightarrow> orderly lines"
  unfolding preset_lines_def
  by (auto simp: orderly_append orderly_base orderly_complex orderly_task orderly_small
      split: if_splits)


lemma resolve_lines:
  "resolve name c = map_option (\<lambda>ls. assign_all ls c) (preset_lines name)"
  unfolding resolve_def preset_lines_def ARCH_CONFIG_REGISTRY_def
  by (simp add: assign_all_append base_architecture_def smlp_mlm_complex_architecture_def
      smlp_mlm_complex_architecture_mp_def smlp_mlm_complex_architecture_test1_def
      smlp_mlm_complex_architecture_sst2_def smlp_mlm_complex_architecture_qqp_gate_def
      smlp_mlm_complex_architecture_sst2_gate_def smlp_mlm_complex_architecture_cola_def
      smlp_mlm_complex_architecture_cola_gate_def smlp_mlm_complex_architecture_mrpc_def
      smlp_mlm_complex_architecture_mrpc_gate_def smlp_mlm_complex_architecture_test1_base_def
      smlp_mlm_complex_architecture_test1_base_2_def smlp_mlm_complex_gate_def
      smlp_mlm_complex_architecture_qnli_def smlp_mlm_complex_architecture_qnli_gate_def
      smlp_mlm_complex_architecture_imdb_def smlp_mlm_complex_architecture_imdb_gate_def
      del: assign_all.simps)


subsection \<open>What resolution keeps\<close>

text \<open>
  Every attribute the caller set, other than \<open>spectral_norm_classification_head\<close>,
  keeps the caller's value, for every registered architecture.
\<close>

lemma resolve_keeps_caller_value:
  assumes "resolve name partial_config = Some r"
    and "partial_config k = Some v"
    and "k \<noteq> ''spectral_norm_classification_head''"
  shows "r k = Some v"
proof -
  from assms(1) obtain lines where pl: "preset_lines name = Some lines"
    and r: "r = assign_all lines partial_config"
    by (auto simp: resolve_lines)
  from preset_lines_orderly [OF pl] assms(3)
  have "\<forall>l \<in> set lines. fst l = k \<longrightarrow> plain l"
    by (auto simp: orderly_def list_all_iff typo_line_def)
  with assms(2) show ?thesis unfolding r by (rule assign_all_keeps)
qed

text \<open>
  An attribute the caller left unset ends with the default of the first line that
  names it along the chain from the requested preset to the root: the most derived
  preset that mentions it wins over every ancestor.
\<close>

lemma resolve_most_derived_default:
  assumes "resolve name partial_config = Some r"
    and "preset_lines name = Some lines"
    and "partial_config k = None"
    and "k \<noteq> ''spectral_norm_classification_head''"
  shows "r k = map_of (map (\<lambda>l. (fst l, snd (snd l))) lines) k"
proof -
  from assms(1,2) have r: "r = assign_all lines partial_config"
    by (auto simp: resolve_lines)
  from preset_lines_orderly [OF assms(2)] assms(4)
  have "\<forall>l \<in> set lines. fst l = k \<longrightarrow> plain l"
    by (auto simp: orderly_def list_all_iff typo_line_def)
  with assms(3) show ?thesis unfolding r by (rule assign_all_first_default)
qed

text \<open>Resolving the result of a resolution again changes nothing.\<close>

lemma resolve_twice:
  assumes "resolve name partial_config = Some r"
  shows "resolve name r = Some r"
proof -
  from assms obtain lines where pl: "preset_lines name = Some lines"
    and r: "r = assign_all lines partial_config"
    by (auto simp: resolve_lines)
  from orderly_idem [OF preset_lines_orderly [OF pl]] pl r show ?thesis
    by (simp add: resolve_lines)
qed

text \<open>
  The root preset always assigns \<open>spectral_norm_classification_head\<close> from the
  misspelt attribute, whatever the caller stored under the correct name.
\<close>

lemma base_architecture_spectral_norm:
  "base_architecture args ''spectral_norm_classification_head''
     = Some (getattr args ''spectral_nrom_classification_head'' (PBool False))"
  unfolding base_architecture_def
  by (rule assign_all_foreign)
    (simp_all add: base_lines_def plain_def)

text \<open>
  C1. Resolution is claimed never to overwrite a caller-supplied value. Resolving the
  root preset \<open>smlp_mlm\<close> on a namespace in which the caller set
  \<open>spectral_norm_classification_head\<close> to \<open>True\<close> yields \<open>False\<close> for that
  attribute: the caller's value is overwritten.
\<close>

theorem resolve_overwrites_caller_spectral_norm:
  "map_option (\<lambda>r. r ''spectral_norm_classification_head'')
     (resolve ''smlp_mlm'' [''spectral_norm_classification_head'' \<mapsto> PBool True])
   = Some (Some (PBool False))"
  by (simp add: resolve_def ARCH_CONFIG_REGISTRY_def base_architecture_spectral_norm
      getattr_def)

lemma all_options_set_populated:
  "list_all (\<lambda>l. all_options_set (fst l) \<noteq> None) base_lines"
proof -
  have "\<forall>l \<in> set base_lines. all_options_set (fst l) \<noteq> None"
    using assign_all_sets_target [of _ base_lines Map.empty]
    by (auto simp: all_options_set_def base_architecture_def)
  then show ?thesis by (simp add: list_all_iff)
qed

text \<open>
  C4. Resolution is claimed to change no field of a record in which every option is
  already set. In \<open>all_options_set\<close> every attribute the root preset assigns is
  present and \<open>spectral_norm_classification_head\<close> is \<open>True\<close>; resolving
  \<open>smlp_mlm\<close> on it turns that attribute into \<open>False\<close>, so the record changes.
\<close>

theorem resolve_changes_populated_record:
  "list_all (\<lambda>l. all_options_set (fst l) \<noteq> None) base_lines
   \<and> all_options_set ''spectral_norm_classification_head'' = Some (PBool True)
   \<and> map_option (\<lambda>r. r ''spectral_norm_classification_head'')
        (resolve ''smlp_mlm'' all_options_set) = Some (Some (PBool False))
   \<and> resolve ''smlp_mlm'' all_options_set \<noteq> Some all_options_set"
proof -
  have set_true: "all_options_set ''spectral_norm_classification_head'' = Some (PBool True)"
    by (simp add: all_options_set_def)
  have "''spectral_nrom_classification_head'' \<notin> fst ` set base_lines"
    by (simp add: base_lines_def)
  from assign_all_untouched [OF this, of Map.empty]
  have "assign_all base_lines Map.empty ''spectral_nrom_classification_head'' = None"
    by simp
  then have unread: "all_options_set ''spectral_nrom_classification_head'' = None"
    by (simp add: all_options_set_def base_architecture_def)
  have res: "resolve ''smlp_mlm'' all_options_set = Some (base_architecture all_options_set)"
    by (simp add: resolve_def ARCH_CONFIG_REGISTRY_def)
  have after: "base_architecture all_options_set ''spectral_norm_classification_head''
      = Some (PBool False)"
    by (simp add: base_architecture_spectral_norm getattr_def unread)
  have "base_architecture all_options_set \<noteq> all_options_set"
    using after set_true by (metis option.inject pyval.inject(1))
  with all_options_set_populated set_true res after show ?thesis by simp
qed

section \<open>Properties of the state-dict upgrade\<close>

subsection \<open>Keys and prefixes\<close>

lemma startswith_append [simp]: "startswith (p @ r) p"
  by (simp add: startswith_def)

lemma startswithE: "startswith s p \<Longrightarrow> (\<And>r. s = p @ r \<Longrightarrow> thesis) \<Longrightarrow> thesis"
  by (auto simp: startswith_def prefix_def)

lemma startswith_drop: "startswith s p \<Longrightarrow> p @ drop (length p) s = s"
  by (auto simp: startswith_def prefix_def)

lemma new_key_not_legacy [simp]: "\<not> startswith (new_key pfx k) (pfx @ ''decoder'')"
  by (simp add: startswith_def new_key_def)

lemma new_key_encoder [simp]: "startswith (new_key pfx k) (pfx @ ''encoder'')"
  by (simp add: startswith_def new_key_def)

lemma old_key_new_key: "startswith k (pfx @ ''decoder'') \<Longrightarrow> old_key pfx (new_key pfx k) = k"
  by (auto simp: old_key_def new_key_def startswith_def prefix_def)

lemma new_key_old_key: "startswith K (pfx @ ''encoder'') \<Longrightarrow> new_key pfx (old_key pfx K) = K"
  by (auto simp: old_key_def new_key_def startswith_def prefix_def)

lemma old_key_legacy [simp]: "startswith (old_key pfx K) (pfx @ ''decoder'')"
  by (simp add: startswith_def old_key_def)

lemma legacy_not_encoder: "startswith k (pfx @ ''decoder'') \<Longrightarrow> \<not> startswith k (pfx @ ''encoder'')"
  by (auto simp: startswith_def prefix_def)

lemma legacy_not_head:
  "startswith k (pfx @ ''decoder'') \<Longrightarrow> \<not> startswith k (heads_prefix pfx)"
  by (auto simp: startswith_def prefix_def heads_prefix_def)

lemma encoder_not_head:
  "startswith k (pfx @ ''encoder'') \<Longrightarrow> \<not> startswith k (heads_prefix pfx)"
  by (auto simp: startswith_def prefix_def heads_prefix_def)

lemma rename_decoder_lookup:
  "rename_decoder pfx ks sd = Inr sd' \<Longrightarrow> distinct ks \<Longrightarrow>
   map_of sd' K =
     (if startswith K (pfx @ ''decoder'') \<and> K \<in> set ks then None
      else if startswith K (pfx @ ''encoder'') \<and> old_key pfx K \<in> set ks
           then map_of sd (old_key pfx K)
      else map_of sd K)"
proof (induction ks arbitrary: sd)
  case Nil
  then show ?case by simp
next
  case (Cons k ks)
  show ?case
  proof (cases "startswith k (pfx @ ''decoder'')")
    case False
    with Cons.prems have run: "rename_decoder pfx ks sd = Inr sd'" by simp
    from Cons.prems have d: "distinct ks" by simp
    have "old_key pfx K \<noteq> k" using False old_key_legacy [of pfx K] by auto
    with Cons.IH [OF run d] False show ?thesis by auto
  next
    case True
    with Cons.prems obtain v where v: "map_of sd k = Some v"
      and run: "rename_decoder pfx ks (AList.delete k (AList.update (new_key pfx k) v sd)) = Inr sd'"
      by (auto simp: getitem_def split: option.splits)
    from Cons.prems have d: "distinct ks" and kn: "k \<notin> set ks" by simp_all
    let ?sd1 = "AList.delete k (AList.update (new_key pfx k) v sd)"
    have m1: "map_of ?sd1 = ((map_of sd)(new_key pfx k \<mapsto> v))(k := None)"
      by (simp add: delete_conv' update_conv')
    have nk: "new_key pfx k \<noteq> k" using True new_key_not_legacy [of pfx k] by metis
    note IH = Cons.IH [OF run d]
    show ?thesis
    proof (cases "startswith K (pfx @ ''decoder'')")
      case legacy: True
      then have ne: "\<not> startswith K (pfx @ ''encoder'')" by (rule legacy_not_encoder)
      have "K \<noteq> new_key pfx k" using legacy new_key_not_legacy [of pfx k] by auto
      with IH legacy ne m1 show ?thesis by auto
    next
      case notlegacy: False
      then have Kk: "K \<noteq> k" using True by auto
      show ?thesis
      proof (cases "startswith K (pfx @ ''encoder'')")
        case enc: True
        show ?thesis
        proof (cases "old_key pfx K = k")
          case same: True
          then have "K = new_key pfx k" using new_key_old_key [OF enc] by simp
          with IH notlegacy enc same kn m1 v nk show ?thesis by simp
        next
          case other: False
          then have K1: "K \<noteq> new_key pfx k" using old_key_new_key [OF True] by auto
          have "old_key pfx K \<noteq> new_key pfx k"
            using old_key_legacy [of pfx K] new_key_not_legacy [of pfx k] by metis
          with IH notlegacy enc other m1 K1 Kk show ?thesis by simp
        qed
      next
        case notenc: False
        then have "K \<noteq> new_key pfx k" using new_key_encoder [of pfx k] by auto
        with IH notlegacy notenc m1 Kk show ?thesis by simp
      qed
    qed
  qed
qed

lemma rename_decoder_total:
  "distinct ks \<Longrightarrow> \<forall>k \<in> set ks. startswith k (pfx @ ''decoder'') \<longrightarrow> map_of sd k \<noteq> None
     \<Longrightarrow> \<exists>sd'. rename_decoder pfx ks sd = Inr sd'"
proof (induction ks arbitrary: sd)
  case Nil
  then show ?case by simp
next
  case (Cons k ks)
  show ?case
  proof (cases "startswith k (pfx @ ''decoder'')")
    case False
    with Cons show ?thesis by simp
  next
    case True
    with Cons.prems obtain v where v: "map_of sd k = Some v" by auto
    let ?sd1 = "AList.delete k (AList.update (new_key pfx k) v sd)"
    have m1: "map_of ?sd1 = ((map_of sd)(new_key pfx k \<mapsto> v))(k := None)"
      by (simp add: delete_conv' update_conv')
    have "\<forall>k' \<in> set ks. startswith k' (pfx @ ''decoder'') \<longrightarrow> map_of ?sd1 k' \<noteq> None"
      using Cons.prems m1 by auto
    moreover have "distinct ks" using Cons.prems by simp
    ultimately have "\<exists>sd'. rename_decoder pfx ks ?sd1 = Inr sd'" by (rule Cons.IH [rotated])
    with True v show ?thesis by (simp add: getitem_def)
  qed
qed

lemma delete_keys_lookup:
  "map_of (delete_keys ks sd) K = (if K \<in> set ks then None else map_of sd K)"
  unfolding delete_keys_def
  by (induction ks arbitrary: sd) (auto simp: delete_conv')

lemma copy_heads_lookup:
  "map_of (fst (copy_heads pfx cur sd lg)) K =
     (case map_of sd K of
        Some v \<Rightarrow> Some v
      | None \<Rightarrow>
          if startswith K (heads_prefix pfx)
          then map_of cur (drop (length (heads_prefix pfx)) K)
          else None)"
proof (induction cur arbitrary: sd lg)
  case Nil
  then show ?case by (simp split: option.splits)
next
  case (Cons kv cur)
  obtain k v where kv: "kv = (k, v)" by (cases kv)
  let ?P = "heads_prefix pfx"
  let ?K0 = "heads_prefix pfx @ k"
  have key: "startswith K ?P \<Longrightarrow> (drop (length ?P) K = k) = (K = ?K0)"
    using startswith_drop [of K ?P] by auto
  show ?case
  proof (cases "?K0 \<in> set (map fst sd)")
    case True
    then have "map_of sd ?K0 \<noteq> None" by (simp add: map_of_eq_None_iff)
    with True Cons.IH [of sd lg] key show ?thesis
      by (auto simp: kv split: option.splits)
  next
    case False
    then have none: "map_of sd ?K0 = None" by (simp add: map_of_eq_None_iff)
    have "map_of (AList.update ?K0 v sd) = (map_of sd)(?K0 \<mapsto> v)" by (simp add: update_conv')
    with False none Cons.IH [of "AList.update ?K0 v sd" "lg @ [Overwriting ?K0]"] key
    show ?thesis
      by (auto simp: kv split: option.splits)
  qed
qed

subsection \<open>Registration and the loop over the heads\<close>

lemma SMLPClassificationHead_dims:
  "SMLPClassificationHead lib input_dim inner_dim num_classes act p q b sp rep seed = Inr h
     \<Longrightarrow> out_proj_out_features h = num_classes \<and> dense_out_features h = inner_dim
        \<and> head_sen_rep_type h = rep"
  by (auto simp: SMLPClassificationHead_def split: if_splits)

lemma register_built:
  assumes "register_classification_head lib m n nc inner = Inr m'"
  shows "\<exists>h embed act p q b sp rep.
           encoder_embed_dim (self_args m) = Some embed
           \<and> sen_rep_type (self_args m) = Some rep
           \<and> SMLPClassificationHead lib embed (inner_dim_or inner embed) nc act p q b sp rep (rng m)
               = Inr h
           \<and> m' = m\<lparr>classification_heads := AList.update n h (classification_heads m),
                    rng := rng m + 6,
                    logged := logged m @ reregister_warning m n nc inner
                                @ [UsingSentenceRepresentation rep]\<rparr>"
  using assms unfolding register_classification_head_def
  by (simp split: option.splits sum.splits if_splits) blast

lemma register_result:
  assumes "register_classification_head lib m n nc inner = Inr m'"
  shows "\<exists>h embed rep. encoder_embed_dim (self_args m) = Some embed
           \<and> sen_rep_type (self_args m) = Some rep
           \<and> out_proj_out_features h = nc
           \<and> dense_out_features h = inner_dim_or inner embed
           \<and> m' = m\<lparr>classification_heads := AList.update n h (classification_heads m),
                    rng := rng m + 6,
                    logged := logged m @ reregister_warning m n nc inner
                                @ [UsingSentenceRepresentation rep]\<rparr>"
proof -
  from register_built [OF assms] obtain h embed act p q b sp rep where
    "encoder_embed_dim (self_args m) = Some embed" "sen_rep_type (self_args m) = Some rep"
    "SMLPClassificationHead lib embed (inner_dim_or inner embed) nc act p q b sp rep (rng m) = Inr h"
    "m' = m\<lparr>classification_heads := AList.update n h (classification_heads m),
                    rng := rng m + 6,
                    logged := logged m @ reregister_warning m n nc inner
                                @ [UsingSentenceRepresentation rep]\<rparr>"
    by blast
  with SMLPClassificationHead_dims [of lib embed "inner_dim_or inner embed" nc act p q b sp rep "rng m" h]
  show ?thesis by blast
qed

lemma register_succeeds_iff:
  "(\<exists>m'. register_classification_head lib m n nc inner = Inr m')
     = (can_build lib (self_args m) inner \<and> \<not> name_refused lib (classification_heads m) n)"
  by (auto simp: can_build_def register_classification_head_def SMLPClassificationHead_def
      split: option.splits if_splits)

lemma register_total:
  "can_build lib (self_args m) inner \<Longrightarrow> \<not> name_refused lib (classification_heads m) n
     \<Longrightarrow> \<exists>m'. register_classification_head lib m n nc inner = Inr m'"
  by (simp add: register_succeeds_iff)

lemma register_args:
  "register_classification_head lib m n nc inner = Inr m' \<Longrightarrow> self_args m' = self_args m"
  by (drule register_result) auto

lemma handle_heads_off:
  "\<not> load_heads m \<Longrightarrow> handle_heads lib pfx sd ks m del = Inr (m', del') \<Longrightarrow>
   del' = del @ filter (stale pfx sd (classification_heads m)) ks
   \<and> m' = m\<lparr>logged := logged m @ map (stale_message pfx (classification_heads m))
                                   (filter (stale pfx sd (classification_heads m)) ks)\<rparr>"
proof (induction ks arbitrary: m del)
  case Nil
  then show ?case by simp
next
  case (Cons k ks)
  show ?case
  proof (cases "startswith k (heads_prefix pfx)")
    case False
    with Cons.prems have "handle_heads lib pfx sd ks m del = Inr (m', del')" by simp
    from Cons.IH [OF Cons.prems(1) this] False show ?thesis by (simp add: stale_def)
  next
    case True
    with Cons.prems obtain nc inner where
      dims: "persisted_dims pfx sd (head_name_of pfx k) = Inr (nc, inner)"
      by (auto split: sum.splits)
    show ?thesis
    proof (cases "stale pfx sd (classification_heads m) k")
      case st: True
      let ?m1 = "m\<lparr>logged := logged m @ [stale_message pfx (classification_heads m) k]\<rparr>"
      have off: "\<not> load_heads ?m1" using Cons.prems(1) by (simp add: load_heads_def)
      have "handle_heads lib pfx sd ks ?m1 (del @ [k]) = Inr (m', del')"
        using Cons.prems True dims st
        by (auto simp: stale_def stale_message_def split: option.splits if_splits)
      from Cons.IH [OF off this] st show ?thesis by simp
    next
      case nst: False
      have "handle_heads lib pfx sd ks m del = Inr (m', del')"
        using Cons.prems True dims nst
        by (auto simp: stale_def split: option.splits if_splits)
      from Cons.IH [OF Cons.prems(1) this] nst show ?thesis by simp
    qed
  qed
qed

lemma handle_heads_on:
  "load_heads m \<Longrightarrow> handle_heads lib pfx sd ks m del = Inr (m', del') \<Longrightarrow>
   del' = del \<and> self_args m' = self_args m
   \<and> (\<forall>n h. map_of (classification_heads m) n = Some h
          \<longrightarrow> map_of (classification_heads m') n = Some h)"
proof (induction ks arbitrary: m)
  case Nil
  then show ?case by simp
next
  case (Cons k ks)
  show ?case
  proof (cases "startswith k (heads_prefix pfx)
      \<and> head_name_of pfx k \<notin> set (map fst (classification_heads m))")
    case False
    with Cons.prems have "handle_heads lib pfx sd ks m del = Inr (m', del')"
      by (auto split: sum.splits if_splits)
    from Cons.IH [OF Cons.prems(1) this] show ?thesis .
  next
    case True
    with Cons.prems obtain nc inner m1 where
      reg: "register_classification_head lib m (head_name_of pfx k) nc (Some inner) = Inr m1"
      and run: "handle_heads lib pfx sd ks m1 del = Inr (m', del')"
      by (auto split: sum.splits if_splits)
    from register_result [OF reg] obtain h where
      a1: "self_args m1 = self_args m"
      and h1: "classification_heads m1 = AList.update (head_name_of pfx k) h (classification_heads m)"
      by auto
    have on1: "load_heads m1" using Cons.prems(1) a1 by (simp add: load_heads_def)
    have old: "map_of (classification_heads m) n = Some h'
        \<Longrightarrow> map_of (classification_heads m1) n = Some h'" for n h'
    proof -
      assume s: "map_of (classification_heads m) n = Some h'"
      then have "n \<in> set (map fst (classification_heads m))"
        by (auto dest: map_of_SomeD intro: rev_image_eqI)
      with True have "n \<noteq> head_name_of pfx k" by (auto simp del: set_map)
      with s show ?thesis by (simp add: h1 update_conv')
    qed
    from Cons.IH [OF on1 run] a1 old show ?thesis by auto
  qed
qed

lemma handle_heads_registers:
  "load_heads m \<Longrightarrow> handle_heads lib pfx sd ks m del = Inr (m', del') \<Longrightarrow>
   k \<in> set ks \<Longrightarrow> startswith k (heads_prefix pfx) \<Longrightarrow>
   head_name_of pfx k \<notin> fst ` set (classification_heads m) \<Longrightarrow>
   persisted_dims pfx sd (head_name_of pfx k) = Inr (nc, inner) \<Longrightarrow>
   \<exists>h embed. encoder_embed_dim (self_args m) = Some embed
      \<and> map_of (classification_heads m') (head_name_of pfx k) = Some h
      \<and> out_proj_out_features h = nc
      \<and> dense_out_features h = inner_dim_or (Some inner) embed"
proof (induction ks arbitrary: m)
  case Nil
  then show ?case by simp
next
  case (Cons k0 ks)
  let ?n = "head_name_of pfx k"
  show ?case
  proof (cases "startswith k0 (heads_prefix pfx)
      \<and> head_name_of pfx k0 \<notin> set (map fst (classification_heads m))")
    case False
    with Cons.prems have run: "handle_heads lib pfx sd ks m del = Inr (m', del')"
      by (auto split: sum.splits if_splits)
    from False Cons.prems have "k \<noteq> k0" by auto
    with Cons.prems have "k \<in> set ks" by simp
    from Cons.IH [OF Cons.prems(1) run this Cons.prems(4,5,6)] show ?thesis .
  next
    case True
    with Cons.prems obtain nc0 inner0 m1 where
      dims0: "persisted_dims pfx sd (head_name_of pfx k0) = Inr (nc0, inner0)"
      and reg: "register_classification_head lib m (head_name_of pfx k0) nc0 (Some inner0) = Inr m1"
      and run: "handle_heads lib pfx sd ks m1 del = Inr (m', del')"
      by (auto split: sum.splits if_splits)
    from register_result [OF reg] obtain h embed where
      emb: "encoder_embed_dim (self_args m) = Some embed"
      and ho: "out_proj_out_features h = nc0"
      and hd: "dense_out_features h = inner_dim_or (Some inner0) embed"
      and a1: "self_args m1 = self_args m"
      and h1: "classification_heads m1 = AList.update (head_name_of pfx k0) h (classification_heads m)"
      by auto
    have on1: "load_heads m1" using Cons.prems(1) a1 by (simp add: load_heads_def)
    show ?thesis
    proof (cases "?n = head_name_of pfx k0")
      case same: True
      have "map_of (classification_heads m1) ?n = Some h" by (simp add: h1 same update_conv')
      with handle_heads_on [OF on1 run] have "map_of (classification_heads m') ?n = Some h" by blast
      moreover have "nc0 = nc" "inner0 = inner" using dims0 Cons.prems(6) same by simp_all
      ultimately show ?thesis using emb ho hd by auto
    next
      case other: False
      then have "k \<noteq> k0" by auto
      with Cons.prems have mem: "k \<in> set ks" by simp
      have "?n \<notin> fst ` set (classification_heads m1)"
        using Cons.prems(5) other by (simp add: h1 dom_update)
      from Cons.IH [OF on1 run mem Cons.prems(4) this Cons.prems(6)] a1 show ?thesis by simp
    qed
  qed
qed

lemma name_refused_cong:
  "n \<notin> set (map fst heads) \<Longrightarrow> n \<notin> set (map fst heads')
     \<Longrightarrow> name_refused lib heads' n = name_refused lib heads n"
  by (simp add: name_refused_def)

lemma handle_heads_total:
  "\<forall>k \<in> set ks. startswith k (heads_prefix pfx) \<longrightarrow>
      (\<exists>nc inner. persisted_dims pfx sd (head_name_of pfx k) = Inr (nc, inner)
         \<and> (load_heads m \<and> head_name_of pfx k \<notin> set (map fst (classification_heads m))
              \<longrightarrow> can_build lib (self_args m) (Some inner)
                  \<and> \<not> name_refused lib (classification_heads m) (head_name_of pfx k))) \<Longrightarrow>
   \<exists>r. handle_heads lib pfx sd ks m del = Inr r"
proof (induction ks arbitrary: m del)
  case Nil
  then show ?case by simp
next
  case (Cons k ks)
  let ?ok = "\<lambda>m k. startswith k (heads_prefix pfx) \<longrightarrow>
      (\<exists>nc inner. persisted_dims pfx sd (head_name_of pfx k) = Inr (nc, inner)
         \<and> (load_heads m \<and> head_name_of pfx k \<notin> set (map fst (classification_heads m))
              \<longrightarrow> can_build lib (self_args m) (Some inner)
                  \<and> \<not> name_refused lib (classification_heads m) (head_name_of pfx k)))"
  have rest: "\<forall>k \<in> set ks. ?ok m k" using Cons.prems by simp
  show ?case
  proof (cases "startswith k (heads_prefix pfx)")
    case False
    with Cons.IH [OF rest] show ?thesis by simp
  next
    case True
    with Cons.prems obtain nc inner where
      dims: "persisted_dims pfx sd (head_name_of pfx k) = Inr (nc, inner)"
      and build: "load_heads m \<and> head_name_of pfx k \<notin> set (map fst (classification_heads m))
              \<longrightarrow> can_build lib (self_args m) (Some inner)
                  \<and> \<not> name_refused lib (classification_heads m) (head_name_of pfx k)"
      by auto
    show ?thesis
    proof (cases "load_heads m")
      case on: True
      show ?thesis
      proof (cases "head_name_of pfx k \<notin> set (map fst (classification_heads m))")
        case new: True
        from build on new register_total obtain m1 where
          reg: "register_classification_head lib m (head_name_of pfx k) nc (Some inner) = Inr m1"
          by blast
        from register_result [OF reg] obtain h where
          a1: "self_args m1 = self_args m"
          and h1: "classification_heads m1
                     = AList.update (head_name_of pfx k) h (classification_heads m)"
          by auto
        have on1: "load_heads m1 = load_heads m" by (simp add: load_heads_def a1)
        have "\<forall>k' \<in> set ks. ?ok m1 k'"
        proof (intro ballI impI)
          fix k' assume mem: "k' \<in> set ks" and hk: "startswith k' (heads_prefix pfx)"
          from rest mem hk obtain nc' inner' where
            d': "persisted_dims pfx sd (head_name_of pfx k') = Inr (nc', inner')"
            and b': "load_heads m \<and> head_name_of pfx k' \<notin> set (map fst (classification_heads m))
              \<longrightarrow> can_build lib (self_args m) (Some inner')
                  \<and> \<not> name_refused lib (classification_heads m) (head_name_of pfx k')"
            by blast
          have "load_heads m1 \<and> head_name_of pfx k' \<notin> set (map fst (classification_heads m1))
              \<longrightarrow> can_build lib (self_args m1) (Some inner')
                  \<and> \<not> name_refused lib (classification_heads m1) (head_name_of pfx k')"
          proof
            assume c: "load_heads m1 \<and> head_name_of pfx k' \<notin> set (map fst (classification_heads m1))"
            then have n1: "head_name_of pfx k' \<notin> set (map fst (classification_heads m1))" by simp
            then have n0: "head_name_of pfx k' \<notin> set (map fst (classification_heads m))"
              by (simp add: h1 dom_update)
            from name_refused_cong [OF n0 n1] b' c n0 on on1 a1
            show "can_build lib (self_args m1) (Some inner')
                  \<and> \<not> name_refused lib (classification_heads m1) (head_name_of pfx k')"
              by simp
          qed
          with d' show "\<exists>nc inner. persisted_dims pfx sd (head_name_of pfx k') = Inr (nc, inner)
             \<and> (load_heads m1 \<and> head_name_of pfx k' \<notin> set (map fst (classification_heads m1))
                  \<longrightarrow> can_build lib (self_args m1) (Some inner)
                      \<and> \<not> name_refused lib (classification_heads m1) (head_name_of pfx k'))"
            by blast
        qed
        from Cons.IH [OF this, of del] True dims on new reg show ?thesis by simp
      next
        case known: False
        with Cons.IH [OF rest, of del] True dims on show ?thesis by simp
      qed
    next
      case off: False
      have "\<forall>k' \<in> set ks. ?ok (m\<lparr>logged := l\<rparr>) k'" for l
        using rest by (simp add: load_heads_def)
      from Cons.IH [OF this] Cons.IH [OF rest, of del]
      show ?thesis using True dims off by (auto split: option.splits)
    qed
  qed
qed

subsection \<open>The state of the heads and the shape of a run\<close>

lemma first_segment [simp]:
  "CHR ''.'' \<notin> set n \<Longrightarrow> takeWhile (\<lambda>c. c \<noteq> CHR ''.'') (n @ CHR ''.'' # r) = n"
  by (induction n) auto

lemma segment_inject:
  assumes "CHR ''.'' \<notin> set n" "CHR ''.'' \<notin> set n'" "n @ ''.'' @ r = n' @ ''.'' @ r'"
  shows "n = n' \<and> r = r'"
proof -
  have "takeWhile (\<lambda>c. c \<noteq> CHR ''.'') (n @ ''.'' @ r) = takeWhile (\<lambda>c. c \<noteq> CHR ''.'') (n' @ ''.'' @ r')"
    using assms(3) by simp
  then have "n = n'" using assms(1,2) by simp
  with assms(3) show ?thesis by simp
qed

lemma head_entries_lookup:
  "CHR ''.'' \<notin> set n \<Longrightarrow> CHR ''.'' \<notin> set n' \<Longrightarrow>
   map_of (map (\<lambda>(k, v). (n' @ ''.'' @ k, v)) ps) (n @ ''.'' @ pk)
     = (if n = n' then map_of ps pk else None)"
proof (induction ps)
  case Nil
  then show ?case by simp
next
  case (Cons p ps)
  obtain k v where p: "p = (k, v)" by (cases p)
  have "(n' @ ''.'' @ k = n @ ''.'' @ pk) = (n = n' \<and> k = pk)"
    using segment_inject [OF Cons.prems(2,1), of k pk] by auto
  with Cons show ?case by (auto simp: p)
qed

lemma heads_state_dict_Cons:
  "heads_state_dict ((n, h) # heads) =
     map (\<lambda>(k, v). (n @ ''.'' @ k, v)) (head_state h) @ heads_state_dict heads"
  by (simp add: heads_state_dict_def)

lemma heads_state_dict_name:
  "\<forall>n \<in> set (map fst heads). CHR ''.'' \<notin> set n \<Longrightarrow> (s, t) \<in> set (heads_state_dict heads)
     \<Longrightarrow> takeWhile (\<lambda>c. c \<noteq> CHR ''.'') s \<in> set (map fst heads)"
proof (induction heads)
  case Nil
  then show ?case by (simp add: heads_state_dict_def)
next
  case (Cons nh heads)
  obtain n h where nh: "nh = (n, h)" by (cases nh)
  from Cons.prems(1) nh have dn: "CHR ''.'' \<notin> set n" by simp
  from Cons.prems(2) have
    "(s, t) \<in> set (map (\<lambda>(k, v). (n @ ''.'' @ k, v)) (head_state h))
      \<or> (s, t) \<in> set (heads_state_dict heads)"
    by (simp only: nh heads_state_dict_Cons set_append Un_iff)
  then consider
    (here) "(s, t) \<in> set (map (\<lambda>(k, v). (n @ ''.'' @ k, v)) (head_state h))"
    | (later) "(s, t) \<in> set (heads_state_dict heads)"
    by blast
  then show ?case
  proof cases
    case here
    then obtain k where "s = n @ CHR ''.'' # k" by auto
    with dn have "takeWhile (\<lambda>c. c \<noteq> CHR ''.'') s = n" by simp
    then show ?thesis by (simp add: nh)
  next
    case later
    with Cons.IH Cons.prems(1) show ?thesis by simp
  qed
qed

lemma heads_state_dict_unknown:
  assumes "\<forall>n \<in> set (map fst heads). CHR ''.'' \<notin> set n"
    and "takeWhile (\<lambda>c. c \<noteq> CHR ''.'') s \<notin> set (map fst heads)"
  shows "map_of (heads_state_dict heads) s = None"
proof (cases "map_of (heads_state_dict heads) s")
  case None
  then show ?thesis .
next
  case (Some t)
  then have "(s, t) \<in> set (heads_state_dict heads)" by (rule map_of_SomeD)
  from heads_state_dict_name [OF assms(1) this] assms(2) show ?thesis by simp
qed

lemma heads_state_dict_lookup:
  "module_names_ok heads \<Longrightarrow> CHR ''.'' \<notin> set n \<Longrightarrow>
   map_of (heads_state_dict heads) (n @ ''.'' @ pk)
     = (case map_of heads n of None \<Rightarrow> None | Some h \<Rightarrow> map_of (head_state h) pk)"
proof (induction heads)
  case Nil
  then show ?case by (simp add: heads_state_dict_def)
next
  case (Cons nh heads)
  obtain n' h where nh: "nh = (n', h)" by (cases nh)
  from Cons.prems(1) nh have dn': "CHR ''.'' \<notin> set n'" and ok: "module_names_ok heads"
    and fresh: "n' \<notin> set (map fst heads)"
    and dl: "\<forall>n \<in> set (map fst heads). CHR ''.'' \<notin> set n"
    by (simp_all add: module_names_ok_def)
  note here = head_entries_lookup [OF Cons.prems(2) dn', of "head_state h" pk]
  show ?case
  proof (cases "n = n'")
    case True
    have "takeWhile (\<lambda>c. c \<noteq> CHR ''.'') (n @ ''.'' @ pk) \<notin> set (map fst heads)"
      using fresh True Cons.prems(2) by (simp del: set_map)
    from heads_state_dict_unknown [OF dl this] here True
    show ?thesis by (simp add: nh heads_state_dict_Cons map_add_def split: option.splits)
  next
    case False
    with here Cons.IH [OF ok Cons.prems(2)]
    show ?thesis by (simp add: nh heads_state_dict_Cons map_add_def)
  qed
qed

lemma head_name_of_prefixed:
  "head_name_of pfx (heads_prefix pfx @ s) = takeWhile (\<lambda>c. c \<noteq> CHR ''.'') s"
  by (simp add: head_name_of_def)

lemma head_name_of_drop:
  "head_name_of pfx k = takeWhile (\<lambda>c. c \<noteq> CHR ''.'') (drop (length (heads_prefix pfx)) k)"
  by (simp add: head_name_of_def)

lemma rename_keeps_heads:
  assumes "rename_decoder pfx (map fst sd) sd = Inr sd1" "distinct (map fst sd)"
    and "startswith K (heads_prefix pfx)"
  shows "map_of sd1 K = map_of sd K"
proof -
  have "\<not> startswith K (pfx @ ''decoder'')" "\<not> startswith K (pfx @ ''encoder'')"
    using assms(3) legacy_not_head encoder_not_head by blast+
  with rename_decoder_lookup [OF assms(1,2), of K] show ?thesis by simp
qed

lemma startswith_heads_append [simp]: "startswith (heads_prefix pfx @ s) (heads_prefix pfx)"
  by (simp add: startswith_def)

lemma persisted_dims_rename:
  assumes "rename_decoder pfx (map fst sd) sd = Inr sd1" "distinct (map fst sd)"
  shows "persisted_dims pfx sd1 n = persisted_dims pfx sd n"
proof -
  have "map_of sd1 (heads_prefix pfx @ s) = map_of sd (heads_prefix pfx @ s)" for s
    by (rule rename_keeps_heads [OF assms]) simp
  then have "getitem sd1 (heads_prefix pfx @ s) = getitem sd (heads_prefix pfx @ s)" for s
    by (simp add: getitem_def)
  then show ?thesis by (simp only: persisted_dims_def)
qed

lemma keys_iff: "(K \<in> fst ` set sd) = (map_of sd K \<noteq> None)"
  by (simp add: map_of_eq_None_iff)

lemma handle_heads_dropped:
  assumes "handle_heads lib pfx sd ks m [] = Inr (m1, dropped)" "k \<in> set dropped"
  shows "startswith k (heads_prefix pfx) \<and> k \<in> set ks"
proof (cases "load_heads m")
  case True
  from handle_heads_on [OF True assms(1)] assms(2) show ?thesis by simp
next
  case False
  from handle_heads_off [OF False assms(1)] assms(2) show ?thesis by (auto simp: stale_def)
qed

lemma copy_heads_log: "x \<in> set lg \<Longrightarrow> x \<in> set (snd (copy_heads pfx cur d lg))"
proof (induction cur arbitrary: d lg)
  case Nil
  then show ?case by simp
next
  case (Cons kv cur)
  obtain k v where kv: "kv = (k, v)" by (cases kv)
  from Cons.prems have "x \<in> set (lg @ [Overwriting (heads_prefix pfx @ k)])" by simp
  from Cons.IH [OF this] Cons.IH [OF Cons.prems] show ?case by (simp add: kv)
qed

lemma upgrade_anatomy:
  assumes "upgrade_state_dict_named lib no_child_upgrade m sd name = Inr (m', sd', dropped)"
  obtains sd1 m1 where
    "rename_decoder (prefix_of name) (map fst sd) sd = Inr sd1"
    "handle_heads lib (prefix_of name) sd1 (map fst sd1) m [] = Inr (m1, dropped)"
    "sd' = fst (copy_heads (prefix_of name) (heads_state_dict (classification_heads m1))
                  (delete_keys dropped sd1) (logged m1))"
    "m' = m1\<lparr>logged := snd (copy_heads (prefix_of name)
                  (heads_state_dict (classification_heads m1))
                  (delete_keys dropped sd1) (logged m1))\<rparr>"
  using assms unfolding upgrade_state_dict_named_def no_child_upgrade_def
  by (auto split: sum.splits prod.splits)

lemma upgrade_lookup:
  assumes "upgrade_state_dict_named lib no_child_upgrade m sd name = Inr (m', sd', dropped)"
  shows "\<exists>sd1 m1.
    rename_decoder (prefix_of name) (map fst sd) sd = Inr sd1
    \<and> handle_heads lib (prefix_of name) sd1 (map fst sd1) m [] = Inr (m1, dropped)
    \<and> set (logged m1) \<subseteq> set (logged m')
    \<and> classification_heads m' = classification_heads m1
    \<and> (\<forall>K. map_of sd' K =
       (case (if K \<in> set dropped then None else map_of sd1 K) of
          Some v \<Rightarrow> Some v
        | None \<Rightarrow>
            if startswith K (heads_prefix (prefix_of name))
            then map_of (heads_state_dict (classification_heads m1))
                   (drop (length (heads_prefix (prefix_of name))) K)
            else None))"
proof -
  from assms obtain sd1 m1 where
    r: "rename_decoder (prefix_of name) (map fst sd) sd = Inr sd1"
    and h: "handle_heads lib (prefix_of name) sd1 (map fst sd1) m [] = Inr (m1, dropped)"
    and s: "sd' = fst (copy_heads (prefix_of name) (heads_state_dict (classification_heads m1))
                  (delete_keys dropped sd1) (logged m1))"
    and m: "m' = m1\<lparr>logged := snd (copy_heads (prefix_of name)
                  (heads_state_dict (classification_heads m1))
                  (delete_keys dropped sd1) (logged m1))\<rparr>"
    by (rule upgrade_anatomy)
  have "set (logged m1) \<subseteq> set (logged m')" unfolding m using copy_heads_log by auto
  moreover have "classification_heads m' = classification_heads m1" unfolding m by simp
  moreover have "\<forall>K. map_of sd' K =
       (case (if K \<in> set dropped then None else map_of sd1 K) of
          Some v \<Rightarrow> Some v
        | None \<Rightarrow>
            if startswith K (heads_prefix (prefix_of name))
            then map_of (heads_state_dict (classification_heads m1))
                   (drop (length (heads_prefix (prefix_of name))) K)
            else None)"
    unfolding s by (simp add: copy_heads_lookup delete_keys_lookup)
  ultimately show ?thesis using r h by blast
qed

subsection \<open>Runs on the concrete inputs\<close>

lemma run_legacy:
  "upgrade_state_dict_named example_lib no_child_upgrade bare_model legacy_blob []
     = Inr (bare_model, legacy_blob_upgraded, [])"
  by code_simp

lemma run_sst2_loading:
  "upgrade_state_dict_named example_lib no_child_upgrade sst2_loading_model sst2_blob []
     = Inr (sst2_loading_model, sst2_blob, [])"
  by code_simp

lemma run_sst2:
  "upgrade_state_dict_named example_lib no_child_upgrade sst2_model sst2_blob []
     = Inr (sst2_model_after, sst2_blob_backfilled, sst2_dropped)"
  by code_simp

lemma run_mnli_loading:
  "upgrade_state_dict_named example_lib no_child_upgrade bare_loading_model mnli_blob []
     = Inr (mnli_model_loaded, mnli_blob_loaded, [])"
  by code_simp

lemma run_mnli:
  "upgrade_state_dict_named example_lib no_child_upgrade bare_model mnli_blob []
     = Inr (mnli_model_dropped, [], map fst mnli_blob)"
  by code_simp

lemma run_rte_loading:
  "upgrade_state_dict_named example_lib no_child_upgrade bare_loading_model rte_blob []
     = Inr (rte_model_loaded, rte_blob_loaded, [])"
  by code_simp


lemma names_ok_sst2: "module_names_ok (classification_heads sst2_model)"
  by (simp add: module_names_ok_def sst2_model_def)

lemma names_ok_bare: "module_names_ok (classification_heads bare_model)"
  by (simp add: module_names_ok_def bare_model_def)

lemma dims_sst2: "persisted_dims (prefix_of []) sst2_blob ''sst2'' = Inr (3, 4)"
  by code_simp

lemma dims_mnli: "persisted_dims (prefix_of []) mnli_blob ''mnli'' = Inr (3, 4)"
  by code_simp

subsection \<open>The numbers read from the blob and the errors of a run\<close>

lemma persisted_dims_entries:
  "map_of sd (heads_prefix pfx @ h @ ''.out_proj.weight'') = Some w \<Longrightarrow> shape w = nc # r1
     \<Longrightarrow> map_of sd (heads_prefix pfx @ h @ ''.dense.weight'') = Some d \<Longrightarrow> shape d = inner # r2
     \<Longrightarrow> persisted_dims pfx sd h = Inr (nc, inner)"
  by (simp add: persisted_dims_def getitem_def size0_def)

lemma persisted_dims_error:
  "persisted_dims pfx sd h = Inl e \<Longrightarrow> e = KeyError \<or> e = IndexError"
  by (auto simp: persisted_dims_def getitem_def size0_def
      split: option.splits sum.splits list.splits)

lemma persisted_dims_needs_entries:
  assumes "persisted_dims pfx sd h = Inr x"
  shows "\<exists>w d. map_of sd (heads_prefix pfx @ h @ ''.out_proj.weight'') = Some w \<and> shape w \<noteq> []
            \<and> map_of sd (heads_prefix pfx @ h @ ''.dense.weight'') = Some d \<and> shape d \<noteq> []"
  using assms
  by (auto simp: persisted_dims_def getitem_def size0_def
      split: option.splits sum.splits list.splits)

lemma handle_heads_off_error:
  "\<not> load_heads m \<Longrightarrow> handle_heads lib pfx sd ks m del = Inl e
     \<Longrightarrow> e = KeyError \<or> e = IndexError"
proof (induction ks arbitrary: m del)
  case Nil
  then show ?case by simp
next
  case (Cons k ks)
  have off: "\<not> load_heads (m\<lparr>logged := l\<rparr>)" for l
    using Cons.prems(1) by (simp add: load_heads_def)
  show ?case
  proof (cases "startswith k (heads_prefix pfx)")
    case False
    with Cons.prems Cons.IH [of m del] show ?thesis by simp
  next
    case True
    show ?thesis
    proof (cases "persisted_dims pfx sd (head_name_of pfx k)")
      case (Inl e')
      with True Cons.prems have "e = e'" by simp
      with persisted_dims_error [OF Inl] show ?thesis by simp
    next
      case (Inr x)
      obtain nc inner where "x = (nc, inner)" by (cases x)
      with Inr True Cons.prems obtain m1 del1 where
        "\<not> load_heads m1" "handle_heads lib pfx sd ks m1 del1 = Inl e"
        using off by (auto split: option.splits if_splits)
      then show ?thesis by (rule Cons.IH)
    qed
  qed
qed

lemma handle_heads_success_dims:
  "handle_heads lib pfx sd ks m del = Inr r \<Longrightarrow> k \<in> set ks \<Longrightarrow> startswith k (heads_prefix pfx)
     \<Longrightarrow> \<exists>d. persisted_dims pfx sd (head_name_of pfx k) = Inr d"
proof (induction ks arbitrary: m del)
  case Nil
  then show ?case by simp
next
  case (Cons k0 ks)
  show ?case
  proof (cases "k = k0")
    case True
    with Cons.prems show ?thesis by (auto split: sum.splits)
  next
    case False
    with Cons.prems have mem: "k \<in> set ks" by simp
    from Cons.prems(1) obtain m1 del1 where "handle_heads lib pfx sd ks m1 del1 = Inr r"
      by (auto split: sum.splits if_splits option.splits)
    from Cons.IH [OF this mem Cons.prems(3)] show ?thesis .
  qed
qed

lemma upgrade_error_anatomy:
  assumes "upgrade_state_dict_named lib no_child_upgrade m sd name = Inl e"
    and "distinct (map fst sd)"
  shows "\<exists>sd1. rename_decoder (prefix_of name) (map fst sd) sd = Inr sd1
           \<and> handle_heads lib (prefix_of name) sd1 (map fst sd1) m [] = Inl e"
proof -
  have "\<forall>k \<in> set (map fst sd). startswith k (prefix_of name @ ''decoder'') \<longrightarrow> map_of sd k \<noteq> None"
    by (simp add: keys_iff)
  from rename_decoder_total [OF assms(2) this] obtain sd1 where
    r: "rename_decoder (prefix_of name) (map fst sd) sd = Inr sd1" by blast
  with assms(1) have "handle_heads lib (prefix_of name) sd1 (map fst sd1) m [] = Inl e"
    by (simp add: upgrade_state_dict_named_def no_child_upgrade_def
        split: sum.splits prod.splits)
  with r show ?thesis by blast
qed

text \<open>
  A legacy key of the blob is found under its new key with its value, and is gone
  under its old one.
\<close>

lemma upgrade_renames:
  assumes run: "upgrade_state_dict_named lib no_child_upgrade m sd name = Inr (m', sd', dropped)"
    and dist: "distinct (map fst sd)"
    and legacy: "startswith k (prefix_of name @ ''decoder'')"
    and v: "map_of sd k = Some v"
  shows "map_of sd' (new_key (prefix_of name) k) = Some v \<and> map_of sd' k = None"
proof -
  let ?p = "prefix_of name"
  from upgrade_lookup [OF run] obtain sd1 m1 where
    r: "rename_decoder ?p (map fst sd) sd = Inr sd1"
    and h: "handle_heads lib ?p sd1 (map fst sd1) m [] = Inr (m1, dropped)"
    and look: "\<And>K. map_of sd' K =
       (case (if K \<in> set dropped then None else map_of sd1 K) of
          Some v \<Rightarrow> Some v
        | None \<Rightarrow>
            if startswith K (heads_prefix ?p)
            then map_of (heads_state_dict (classification_heads m1))
                   (drop (length (heads_prefix ?p)) K)
            else None)"
    by (elim exE conjE) blast
  have kin: "k \<in> set (map fst sd)" using v by (simp add: keys_iff)
  have "map_of sd1 (new_key ?p k) = Some v"
    using rename_decoder_lookup [OF r dist, of "new_key ?p k"] legacy kin v
    by (simp add: old_key_new_key)
  moreover have "new_key ?p k \<notin> set dropped"
    using handle_heads_dropped [OF h, of "new_key ?p k"] encoder_not_head [OF new_key_encoder]
    by blast
  ultimately have new: "map_of sd' (new_key ?p k) = Some v" by (simp add: look)
  have "map_of sd1 k = None"
    using rename_decoder_lookup [OF r dist, of k] legacy kin by simp
  with legacy_not_head [OF legacy] have "map_of sd' k = None" by (simp add: look)
  with new show ?thesis by simp
qed

section \<open>The claims about heads, upgrade and forward pass\<close>




text \<open>
  C3 (as amended). For a head that the model knows. With the loading of checkpoint
  heads switched off, when the blob holds \<open>out_proj.weight\<close> and \<open>dense.weight\<close> of
  that head with first dimensions other than the numbers of the model's head: every
  key of that head in the blob is put on the list of dropped keys, and in the
  upgraded blob every key of that head holds what the model's own head holds under
  that name (nothing, if the head has no such entry), so each parameter of the
  current head is in the blob with its current tensor; the model's heads are
  unchanged. With the loading switched on, whatever the shapes: no key of that head
  is dropped, each keeps its persisted entry, and the model's head stays as it is.
\<close>

theorem upgrade_replaces_mismatched_head:
  assumes run: "upgrade_state_dict_named lib no_child_upgrade m sd name = Inr (m', sd', dropped)"
    and dist: "distinct (map fst sd)"
    and ok: "module_names_ok (classification_heads m)"
    and known: "map_of (classification_heads m) h = Some cur"
  shows "(\<not> load_heads m
          \<and> map_of sd (heads_prefix (prefix_of name) @ h @ ''.out_proj.weight'') = Some w
          \<and> shape w = num_classes # r1
          \<and> map_of sd (heads_prefix (prefix_of name) @ h @ ''.dense.weight'') = Some d
          \<and> shape d = inner_dim # r2
          \<and> (num_classes \<noteq> out_proj_out_features cur \<or> inner_dim \<noteq> dense_out_features cur)
          \<longrightarrow>
            (\<forall>k \<in> set (map fst sd).
               startswith k (heads_prefix (prefix_of name)) \<and> head_name_of (prefix_of name) k = h
               \<longrightarrow> k \<in> set dropped)
            \<and> (\<forall>k. startswith k (heads_prefix (prefix_of name))
                     \<and> head_name_of (prefix_of name) k = h
                  \<longrightarrow> map_of sd' k = map_of (heads_state_dict (classification_heads m))
                                        (drop (length (heads_prefix (prefix_of name))) k))
            \<and> (\<forall>param. map_of sd' (heads_prefix (prefix_of name) @ h @ ''.'' @ param)
                          = map_of (head_state cur) param)
            \<and> classification_heads m' = classification_heads m)
       \<and> (load_heads m
          \<longrightarrow>
            (\<forall>k \<in> set (map fst sd).
               startswith k (heads_prefix (prefix_of name)) \<and> head_name_of (prefix_of name) k = h
               \<longrightarrow> k \<notin> set dropped \<and> map_of sd' k = map_of sd k)
            \<and> map_of (classification_heads m') h = Some cur)"
proof -
  let ?p = "prefix_of name"
  from upgrade_lookup [OF run] obtain sd1 m1 where
    r: "rename_decoder ?p (map fst sd) sd = Inr sd1"
    and hh: "handle_heads lib ?p sd1 (map fst sd1) m [] = Inr (m1, dropped)"
    and hm: "classification_heads m' = classification_heads m1"
    and look: "\<And>K. map_of sd' K =
       (case (if K \<in> set dropped then None else map_of sd1 K) of
          Some v \<Rightarrow> Some v
        | None \<Rightarrow>
            if startswith K (heads_prefix ?p)
            then map_of (heads_state_dict (classification_heads m1))
                   (drop (length (heads_prefix ?p)) K)
            else None)"
    by (elim exE conjE) blast
  have off_part: "(\<forall>k \<in> set (map fst sd).
               startswith k (heads_prefix ?p) \<and> head_name_of ?p k = h \<longrightarrow> k \<in> set dropped)
            \<and> (\<forall>k. startswith k (heads_prefix ?p) \<and> head_name_of ?p k = h
                  \<longrightarrow> map_of sd' k = map_of (heads_state_dict (classification_heads m))
                                        (drop (length (heads_prefix ?p)) k))
            \<and> (\<forall>param. map_of sd' (heads_prefix ?p @ h @ ''.'' @ param)
                          = map_of (head_state cur) param)
            \<and> classification_heads m' = classification_heads m"
    if off: "\<not> load_heads m"
      and w: "map_of sd (heads_prefix ?p @ h @ ''.out_proj.weight'') = Some w"
        "shape w = num_classes # r1"
      and d: "map_of sd (heads_prefix ?p @ h @ ''.dense.weight'') = Some d"
        "shape d = inner_dim # r2"
      and diff: "num_classes \<noteq> out_proj_out_features cur \<or> inner_dim \<noteq> dense_out_features cur"
  proof -
    have dims: "persisted_dims ?p sd h = Inr (num_classes, inner_dim)"
      using w d by (rule persisted_dims_entries)
    from handle_heads_off [OF off hh] have
      dr: "dropped = filter (stale ?p sd1 (classification_heads m)) (map fst sd1)"
      and m1: "classification_heads m1 = classification_heads m"
      by simp_all
    have st: "stale ?p sd1 (classification_heads m) k"
      if "startswith k (heads_prefix ?p)" "head_name_of ?p k = h" for k
      using that known dims diff by (auto simp: stale_def persisted_dims_rename [OF r dist])
    have gone: "(if k \<in> set dropped then None else map_of sd1 k) = None"
      if "startswith k (heads_prefix ?p)" "head_name_of ?p k = h" for k
      using st [OF that] by (auto simp: dr keys_iff)
    have first: "\<forall>k \<in> set (map fst sd).
        startswith k (heads_prefix ?p) \<and> head_name_of ?p k = h \<longrightarrow> k \<in> set dropped"
    proof (intro ballI impI, elim conjE)
      fix k assume kin: "k \<in> set (map fst sd)" and hk: "startswith k (heads_prefix ?p)"
        and hn: "head_name_of ?p k = h"
      from kin have "map_of sd k \<noteq> None" by (simp add: keys_iff)
      then have "map_of sd1 k \<noteq> None" by (simp add: rename_keeps_heads [OF r dist hk])
      then have "k \<in> set (map fst sd1)" by (simp add: keys_iff)
      with st [OF hk hn] show "k \<in> set dropped" by (simp add: dr)
    qed
    have second: "\<forall>k. startswith k (heads_prefix ?p) \<and> head_name_of ?p k = h
        \<longrightarrow> map_of sd' k = map_of (heads_state_dict (classification_heads m))
                              (drop (length (heads_prefix ?p)) k)"
      using gone by (simp add: look m1)
    have dl: "CHR ''.'' \<notin> set h"
      using ok known by (auto simp: module_names_ok_def dest: map_of_SomeD)
    have third: "\<forall>param. map_of sd' (heads_prefix ?p @ h @ ''.'' @ param)
        = map_of (head_state cur) param"
    proof
      fix param
      let ?k = "heads_prefix ?p @ h @ ''.'' @ param"
      have hn: "head_name_of ?p ?k = h" using dl by (simp add: head_name_of_prefixed)
      have "map_of sd' ?k = map_of (heads_state_dict (classification_heads m)) (h @ ''.'' @ param)"
        using second hn by simp
      also have "\<dots> = map_of (head_state cur) param"
        using heads_state_dict_lookup [OF ok dl, of param] known by simp
      finally show "map_of sd' ?k = map_of (head_state cur) param" .
    qed
    from first second third hm m1 show ?thesis by simp
  qed
  have on_part: "(\<forall>k \<in> set (map fst sd).
               startswith k (heads_prefix ?p) \<and> head_name_of ?p k = h
               \<longrightarrow> k \<notin> set dropped \<and> map_of sd' k = map_of sd k)
            \<and> map_of (classification_heads m') h = Some cur"
    if on: "load_heads m"
  proof -
    from handle_heads_on [OF on hh] known have d0: "dropped = []"
      and kept: "map_of (classification_heads m') h = Some cur"
      by (simp_all add: hm)
    have "k \<notin> set dropped \<and> map_of sd' k = map_of sd k"
      if kin: "k \<in> set (map fst sd)" and hk: "startswith k (heads_prefix ?p)" for k
    proof -
      from kin have "map_of sd k \<noteq> None" by (simp add: keys_iff)
      then obtain v where v: "map_of sd1 k = Some v" "map_of sd k = Some v"
        by (auto simp: rename_keeps_heads [OF r dist hk])
      then show ?thesis by (simp add: look d0)
    qed
    with kept show ?thesis by blast
  qed
  from off_part on_part show ?thesis by blast
qed

theorem upgrade_replaces_mismatched_head_witness:
  "upgrade_state_dict_named example_lib no_child_upgrade sst2_model sst2_blob []
     = Inr (sst2_model_after, sst2_blob_backfilled, sst2_dropped)
   \<and> upgrade_state_dict_named example_lib no_child_upgrade sst2_loading_model sst2_blob []
     = Inr (sst2_loading_model, sst2_blob, [])
   \<and> distinct (map fst sst2_blob) \<and> \<not> load_heads sst2_model \<and> load_heads sst2_loading_model
   \<and> module_names_ok (classification_heads sst2_model)
   \<and> map_of (classification_heads sst2_model) ''sst2'' = Some (sst2_head 0)
   \<and> map_of sst2_blob ''classification_heads.sst2.out_proj.weight'' = Some (fresh [3, 4] 200)
   \<and> map_of sst2_blob ''classification_heads.sst2.dense.weight'' = Some (fresh [4, 4] 202)
   \<and> 3 \<noteq> out_proj_out_features (sst2_head 0)
   \<and> ''classification_heads.sst2.out_proj.weight'' \<in> set sst2_dropped
   \<and> map_of sst2_blob_backfilled ''classification_heads.sst2.out_proj.weight''
       = map_of (head_state (sst2_head 0)) ''out_proj.weight''
   \<and> classification_heads sst2_model_after = classification_heads sst2_model
   \<and> map_of (classification_heads sst2_loading_model) ''sst2'' = Some (sst2_head 0)"
proof -
  let ?k = "''classification_heads.sst2.out_proj.weight''"
  have d: "distinct (map fst sst2_blob)" by (simp add: sst2_blob_def)
  have off: "\<not> load_heads sst2_model"
    by (simp add: load_heads_def sst2_model_def example_args_def)
  have on: "load_heads sst2_loading_model"
    by (simp add: load_heads_def sst2_loading_model_def sst2_model_def example_args_def)
  have known: "map_of (classification_heads sst2_model) ''sst2'' = Some (sst2_head 0)"
    by (simp add: sst2_model_def)
  have known2: "map_of (classification_heads sst2_loading_model) ''sst2'' = Some (sst2_head 0)"
    by (simp add: sst2_loading_model_def sst2_model_def)
  have ok2: "module_names_ok (classification_heads sst2_loading_model)"
    by (simp add: module_names_ok_def sst2_loading_model_def sst2_model_def)
  have w: "map_of sst2_blob (heads_prefix (prefix_of []) @ ''sst2'' @ ''.out_proj.weight'')
      = Some (fresh [3, 4] 200)"
    by (simp add: sst2_blob_def heads_prefix_def prefix_of_def)
  have ws: "shape (fresh [3, 4] 200) = 3 # [4]" by (simp add: fresh_def)
  have dw: "map_of sst2_blob (heads_prefix (prefix_of []) @ ''sst2'' @ ''.dense.weight'')
      = Some (fresh [4, 4] 202)"
    by (simp add: sst2_blob_def heads_prefix_def prefix_of_def)
  have ds: "shape (fresh [4, 4] 202) = 4 # [4]" by (simp add: fresh_def)
  have ne: "3 \<noteq> out_proj_out_features (sst2_head 0)" by (simp add: sst2_head_def)
  have mem: "?k \<in> set (map fst sst2_blob)" by (simp add: sst2_blob_def)
  have hk: "startswith ?k (heads_prefix (prefix_of []))
      \<and> head_name_of (prefix_of []) ?k = ''sst2''"
    by (simp add: startswith_def heads_prefix_def prefix_of_def head_name_of_def)
  note dropping = upgrade_replaces_mismatched_head [OF run_sst2 d names_ok_sst2 known,
      of "fresh [3, 4] 200" 3 "[4]" "fresh [4, 4] 202" 4 "[4]", THEN conjunct1]
  note keeping = upgrade_replaces_mismatched_head [OF run_sst2_loading d ok2 known2,
      THEN conjunct2]
  from dropping off w ws dw ds ne have res:
    "(\<forall>k \<in> set (map fst sst2_blob).
        startswith k (heads_prefix (prefix_of [])) \<and> head_name_of (prefix_of []) k = ''sst2''
        \<longrightarrow> k \<in> set sst2_dropped)
     \<and> (\<forall>param. map_of sst2_blob_backfilled (heads_prefix (prefix_of []) @ ''sst2'' @ ''.'' @ param)
                          = map_of (head_state (sst2_head 0)) param)
     \<and> classification_heads sst2_model_after = classification_heads sst2_model"
    by blast
  from res mem hk have "?k \<in> set sst2_dropped" by blast
  moreover from res have
    "map_of sst2_blob_backfilled (heads_prefix (prefix_of []) @ ''sst2'' @ ''.'' @ ''out_proj.weight'')
       = map_of (head_state (sst2_head 0)) ''out_proj.weight''"
    by blast
  then have "map_of sst2_blob_backfilled ?k = map_of (head_state (sst2_head 0)) ''out_proj.weight''"
    by (simp add: heads_prefix_def prefix_of_def)
  moreover from res have "classification_heads sst2_model_after = classification_heads sst2_model"
    by blast
  moreover from keeping on have
    "map_of (classification_heads sst2_loading_model) ''sst2'' = Some (sst2_head 0)" by blast
  ultimately show ?thesis
    using run_sst2 run_sst2_loading d off on names_ok_sst2 known ne
    by (simp add: sst2_blob_def)
qed

text \<open>
  The claim as stated fails when checkpoint heads are loaded: a known head with
  three persisted classes against two current ones keeps all its persisted entries,
  and nothing is dropped.
\<close>

theorem upgrade_keeps_mismatched_head_counterexample:
  "load_heads sst2_loading_model
   \<and> map_of (classification_heads sst2_loading_model) ''sst2'' = Some (sst2_head 0)
   \<and> out_proj_out_features (sst2_head 0) = 2
   \<and> persisted_dims (prefix_of []) sst2_blob ''sst2'' = Inr (3, 4)
   \<and> upgrade_state_dict_named example_lib no_child_upgrade sst2_loading_model sst2_blob []
       = Inr (sst2_loading_model, sst2_blob, [])
   \<and> map_of sst2_blob ''classification_heads.sst2.out_proj.weight'' = Some (fresh [3, 4] 200)"
  using run_sst2_loading dims_sst2
  by (simp add: load_heads_def sst2_loading_model_def sst2_model_def example_args_def
      sst2_head_def sst2_blob_def)

text \<open>
  C5. For a key \<open>decoder.path\<close> under the prefix, the upgraded blob holds the
  original tensor under \<open>encoder.path\<close>, whatever was stored there before, and no
  longer holds the legacy key.
\<close>

theorem upgrade_rewrites_decoder_namespace:
  assumes "upgrade_state_dict_named lib no_child_upgrade m sd name = Inr (m', sd', dropped)"
    and "distinct (map fst sd)"
    and "map_of sd (prefix_of name @ ''decoder.'' @ path) = Some v"
  shows "map_of sd' (prefix_of name @ ''encoder.'' @ path) = Some v
       \<and> map_of sd' (prefix_of name @ ''decoder.'' @ path) = None"
proof -
  have "startswith (prefix_of name @ ''decoder.'' @ path) (prefix_of name @ ''decoder'')"
    by (simp add: startswith_def)
  from upgrade_renames [OF assms(1,2) this assms(3)] show ?thesis
    by (simp add: new_key_def)
qed

theorem upgrade_rewrites_decoder_namespace_witness:
  "upgrade_state_dict_named example_lib no_child_upgrade bare_model legacy_blob []
     = Inr (bare_model, legacy_blob_upgraded, [])
   \<and> distinct (map fst legacy_blob)
   \<and> map_of legacy_blob ''decoder.lm_head.bias'' = Some (fresh [8] 101)
   \<and> map_of legacy_blob ''encoder.lm_head.bias'' = Some (fresh [8] 100)
   \<and> map_of legacy_blob_upgraded ''encoder.lm_head.bias'' = Some (fresh [8] 101)
   \<and> map_of legacy_blob_upgraded ''decoder.lm_head.bias'' = None"
proof -
  have d: "distinct (map fst legacy_blob)" by (simp add: legacy_blob_def)
  have v: "map_of legacy_blob (prefix_of [] @ ''decoder.'' @ ''lm_head.bias'') = Some (fresh [8] 101)"
    by (simp add: legacy_blob_def prefix_of_def)
  have old: "map_of legacy_blob ''encoder.lm_head.bias'' = Some (fresh [8] 100)"
    by (simp add: legacy_blob_def)
  from upgrade_rewrites_decoder_namespace [OF run_legacy d v] run_legacy d v old
  show ?thesis by (simp add: prefix_of_def)
qed

text \<open>
  C6 (as amended). On a blob with unique keys. The upgrade returns normally when
  each key of the heads namespace belongs to a head whose \<open>out_proj.weight\<close> and
  \<open>dense.weight\<close> entries are present with at least one dimension and, where
  checkpoint heads are loaded and the model lacks that head, the arguments allow a
  head of the persisted inner dimension to be built and the module dictionary
  accepts its name. The upgrade raises when some key of the heads namespace belongs
  to a head one of whose two entries is absent or has no dimension; with the loading
  switched off the exception is then \<open>KeyError\<close> or \<open>IndexError\<close>.
\<close>

theorem upgrade_completes:
  assumes dist: "distinct (map fst sd)"
  shows "((\<forall>k \<in> set (map fst sd). startswith k (heads_prefix (prefix_of name)) \<longrightarrow>
            (\<exists>w d num_classes r1 inner_dim r2.
               map_of sd (heads_prefix (prefix_of name) @ head_name_of (prefix_of name) k
                            @ ''.out_proj.weight'') = Some w
               \<and> shape w = num_classes # r1
               \<and> map_of sd (heads_prefix (prefix_of name) @ head_name_of (prefix_of name) k
                            @ ''.dense.weight'') = Some d
               \<and> shape d = inner_dim # r2
               \<and> (load_heads m
                    \<and> head_name_of (prefix_of name) k \<notin> set (map fst (classification_heads m))
                  \<longrightarrow> can_build lib (self_args m) (Some inner_dim)
                      \<and> \<not> name_refused lib (classification_heads m)
                             (head_name_of (prefix_of name) k))))
          \<longrightarrow> (\<exists>m' sd' dropped.
                 upgrade_state_dict_named lib no_child_upgrade m sd name = Inr (m', sd', dropped)))
       \<and> ((\<exists>k \<in> set (map fst sd). startswith k (heads_prefix (prefix_of name))
             \<and> (map_of sd (heads_prefix (prefix_of name) @ head_name_of (prefix_of name) k
                             @ ''.out_proj.weight'') \<in> {None} \<union> {Some w | w. shape w = []}
                \<or> map_of sd (heads_prefix (prefix_of name) @ head_name_of (prefix_of name) k
                             @ ''.dense.weight'') \<in> {None} \<union> {Some d | d. shape d = []}))
          \<longrightarrow> (\<exists>e. upgrade_state_dict_named lib no_child_upgrade m sd name = Inl e
                   \<and> (\<not> load_heads m \<longrightarrow> e = KeyError \<or> e = IndexError)))"
proof (intro conjI impI)
  let ?p = "prefix_of name"
  assume wf: "\<forall>k \<in> set (map fst sd). startswith k (heads_prefix ?p) \<longrightarrow>
            (\<exists>w d num_classes r1 inner_dim r2.
               map_of sd (heads_prefix ?p @ head_name_of ?p k @ ''.out_proj.weight'') = Some w
               \<and> shape w = num_classes # r1
               \<and> map_of sd (heads_prefix ?p @ head_name_of ?p k @ ''.dense.weight'') = Some d
               \<and> shape d = inner_dim # r2
               \<and> (load_heads m \<and> head_name_of ?p k \<notin> set (map fst (classification_heads m))
                  \<longrightarrow> can_build lib (self_args m) (Some inner_dim)
                      \<and> \<not> name_refused lib (classification_heads m) (head_name_of ?p k)))"
  have "\<forall>k \<in> set (map fst sd). startswith k (?p @ ''decoder'') \<longrightarrow> map_of sd k \<noteq> None"
    by (simp add: keys_iff)
  from rename_decoder_total [OF dist this] obtain sd1 where
    r: "rename_decoder ?p (map fst sd) sd = Inr sd1" by blast
  have "\<forall>k \<in> set (map fst sd1). startswith k (heads_prefix ?p) \<longrightarrow>
      (\<exists>nc inner. persisted_dims ?p sd1 (head_name_of ?p k) = Inr (nc, inner)
         \<and> (load_heads m \<and> head_name_of ?p k \<notin> set (map fst (classification_heads m))
              \<longrightarrow> can_build lib (self_args m) (Some inner)
                  \<and> \<not> name_refused lib (classification_heads m) (head_name_of ?p k)))"
  proof (intro ballI impI)
    fix k assume k1: "k \<in> set (map fst sd1)" and hk: "startswith k (heads_prefix ?p)"
    from k1 have "map_of sd1 k \<noteq> None" by (simp add: keys_iff)
    then have "map_of sd k \<noteq> None" by (simp add: rename_keeps_heads [OF r dist hk])
    then have "k \<in> set (map fst sd)" by (simp add: keys_iff)
    with wf hk obtain w d nc r1 inner r2 where
      e: "map_of sd (heads_prefix ?p @ head_name_of ?p k @ ''.out_proj.weight'') = Some w"
        "shape w = nc # r1"
        "map_of sd (heads_prefix ?p @ head_name_of ?p k @ ''.dense.weight'') = Some d"
        "shape d = inner # r2"
      and b: "load_heads m \<and> head_name_of ?p k \<notin> set (map fst (classification_heads m))
                  \<longrightarrow> can_build lib (self_args m) (Some inner)
                      \<and> \<not> name_refused lib (classification_heads m) (head_name_of ?p k)"
      by blast
    from persisted_dims_entries [OF e]
    have "persisted_dims ?p sd1 (head_name_of ?p k) = Inr (nc, inner)"
      by (simp add: persisted_dims_rename [OF r dist])
    with b show "\<exists>nc inner. persisted_dims ?p sd1 (head_name_of ?p k) = Inr (nc, inner)
         \<and> (load_heads m \<and> head_name_of ?p k \<notin> set (map fst (classification_heads m))
              \<longrightarrow> can_build lib (self_args m) (Some inner)
                  \<and> \<not> name_refused lib (classification_heads m) (head_name_of ?p k))"
      by blast
  qed
  from handle_heads_total [OF this, of "[]"] obtain m1 dropped where
    "handle_heads lib ?p sd1 (map fst sd1) m [] = Inr (m1, dropped)" by auto
  with r show "\<exists>m' sd' dropped.
      upgrade_state_dict_named lib no_child_upgrade m sd name = Inr (m', sd', dropped)"
    by (simp add: upgrade_state_dict_named_def no_child_upgrade_def split: prod.splits)
next
  let ?p = "prefix_of name"
  assume "\<exists>k \<in> set (map fst sd). startswith k (heads_prefix ?p)
             \<and> (map_of sd (heads_prefix ?p @ head_name_of ?p k @ ''.out_proj.weight'')
                   \<in> {None} \<union> {Some w | w. shape w = []}
                \<or> map_of sd (heads_prefix ?p @ head_name_of ?p k @ ''.dense.weight'')
                   \<in> {None} \<union> {Some d | d. shape d = []})"
  then obtain k where kin: "k \<in> set (map fst sd)" and hk: "startswith k (heads_prefix ?p)"
    and bad: "map_of sd (heads_prefix ?p @ head_name_of ?p k @ ''.out_proj.weight'')
                   \<in> {None} \<union> {Some w | w. shape w = []}
                \<or> map_of sd (heads_prefix ?p @ head_name_of ?p k @ ''.dense.weight'')
                   \<in> {None} \<union> {Some d | d. shape d = []}"
    by blast
  show "\<exists>e. upgrade_state_dict_named lib no_child_upgrade m sd name = Inl e
          \<and> (\<not> load_heads m \<longrightarrow> e = KeyError \<or> e = IndexError)"
  proof (cases "upgrade_state_dict_named lib no_child_upgrade m sd name")
    case (Inl e)
    from upgrade_error_anatomy [OF Inl dist] obtain sd1 where
      "handle_heads lib ?p sd1 (map fst sd1) m [] = Inl e" by blast
    then have "\<not> load_heads m \<longrightarrow> e = KeyError \<or> e = IndexError"
      using handle_heads_off_error by blast
    with Inl show ?thesis by blast
  next
    case (Inr res)
    obtain m' sd' dropped where "res = (m', sd', dropped)" by (cases res)
    with Inr have run: "upgrade_state_dict_named lib no_child_upgrade m sd name
        = Inr (m', sd', dropped)" by simp
    from upgrade_lookup [OF run] obtain sd1 m1 where
      r: "rename_decoder ?p (map fst sd) sd = Inr sd1"
      and hh: "handle_heads lib ?p sd1 (map fst sd1) m [] = Inr (m1, dropped)"
      by (elim exE conjE)
    from kin have "map_of sd k \<noteq> None" by (simp add: keys_iff)
    then have "map_of sd1 k \<noteq> None" by (simp add: rename_keeps_heads [OF r dist hk])
    then have "k \<in> set (map fst sd1)" by (simp add: keys_iff)
    from handle_heads_success_dims [OF hh this hk]
    obtain x where "persisted_dims ?p sd (head_name_of ?p k) = Inr x"
      by (auto simp: persisted_dims_rename [OF r dist])
    from persisted_dims_needs_entries [OF this] bad have False by auto
    then show ?thesis ..
  qed
qed

theorem upgrade_completes_witness:
  "distinct (map fst mnli_blob) \<and> distinct (map fst weightless_blob)
   \<and> load_heads bare_loading_model \<and> \<not> load_heads bare_model
   \<and> can_build example_lib (self_args bare_loading_model) (Some 4)
   \<and> \<not> name_refused example_lib (classification_heads bare_loading_model) ''mnli''
   \<and> (\<exists>m' sd' dropped.
        upgrade_state_dict_named example_lib no_child_upgrade bare_loading_model mnli_blob []
          = Inr (m', sd', dropped))
   \<and> map_of weightless_blob ''classification_heads.cola.out_proj.weight'' = None
   \<and> (\<exists>e. upgrade_state_dict_named example_lib no_child_upgrade bare_model weightless_blob []
              = Inl e \<and> (e = KeyError \<or> e = IndexError))"
proof -
  have d: "distinct (map fst mnli_blob)" by (simp add: mnli_blob_def)
  have d2: "distinct (map fst weightless_blob)" by (simp add: weightless_blob_def)
  have on: "load_heads bare_loading_model"
    by (simp add: load_heads_def bare_loading_model_def bare_model_def example_args_def)
  have off: "\<not> load_heads bare_model"
    by (simp add: load_heads_def bare_model_def example_args_def)
  have b: "can_build example_lib (self_args bare_loading_model) (Some 4)"
    by (simp add: can_build_def bare_loading_model_def bare_model_def example_args_def
        example_lib_def inner_dim_or_def)
  have a: "\<not> name_refused example_lib (classification_heads bare_loading_model) ''mnli''"
    by (simp add: name_refused_def bare_loading_model_def bare_model_def example_lib_def)
  have wf: "\<forall>k \<in> set (map fst mnli_blob). startswith k (heads_prefix (prefix_of [])) \<longrightarrow>
            (\<exists>w d num_classes r1 inner_dim r2.
               map_of mnli_blob (heads_prefix (prefix_of []) @ head_name_of (prefix_of []) k
                            @ ''.out_proj.weight'') = Some w
               \<and> shape w = num_classes # r1
               \<and> map_of mnli_blob (heads_prefix (prefix_of []) @ head_name_of (prefix_of []) k
                            @ ''.dense.weight'') = Some d
               \<and> shape d = inner_dim # r2
               \<and> (load_heads bare_loading_model
                    \<and> head_name_of (prefix_of []) k
                        \<notin> set (map fst (classification_heads bare_loading_model))
                  \<longrightarrow> can_build example_lib (self_args bare_loading_model) (Some inner_dim)
                      \<and> \<not> name_refused example_lib (classification_heads bare_loading_model)
                             (head_name_of (prefix_of []) k)))"
    using b a
    by (simp add: mnli_blob_def heads_prefix_def prefix_of_def head_name_of_def fresh_def)
  have bad: "\<exists>k \<in> set (map fst weightless_blob). startswith k (heads_prefix (prefix_of []))
             \<and> (map_of weightless_blob (heads_prefix (prefix_of []) @ head_name_of (prefix_of []) k
                             @ ''.out_proj.weight'') \<in> {None} \<union> {Some w | w. shape w = []}
                \<or> map_of weightless_blob (heads_prefix (prefix_of []) @ head_name_of (prefix_of []) k
                             @ ''.dense.weight'') \<in> {None} \<union> {Some d | d. shape d = []})"
    by (simp add: weightless_blob_def heads_prefix_def prefix_of_def head_name_of_def
        startswith_def)
  have none: "map_of weightless_blob ''classification_heads.cola.out_proj.weight'' = None"
    by (simp add: weightless_blob_def)
  from upgrade_completes [OF d, of "[]" bare_loading_model example_lib, THEN conjunct1] wf
  have "\<exists>m' sd' dropped.
        upgrade_state_dict_named example_lib no_child_upgrade bare_loading_model mnli_blob []
          = Inr (m', sd', dropped)"
    by blast
  moreover from upgrade_completes [OF d2, of "[]" bare_model example_lib, THEN conjunct2] bad off
  have "\<exists>e. upgrade_state_dict_named example_lib no_child_upgrade bare_model weightless_blob []
              = Inl e \<and> (e = KeyError \<or> e = IndexError)"
    by blast
  ultimately show ?thesis using d d2 on off b a none by simp
qed

text \<open>
  The claim as stated fails: a key of the heads namespace whose head has no
  \<open>out_proj.weight\<close> entry makes the upgrade raise \<open>KeyError\<close>.
\<close>

theorem upgrade_completes_counterexample:
  "map_of weightless_blob ''classification_heads.cola.out_proj.weight'' = None
   \<and> upgrade_state_dict_named example_lib no_child_upgrade bare_model weightless_blob [] = Inl KeyError"
proof -
  have "upgrade_state_dict_named example_lib no_child_upgrade bare_model weightless_blob [] = Inl KeyError"
    by code_simp
  then show ?thesis by (simp add: weightless_blob_def)
qed

text \<open>
  C7 (as amended). For a key of the blob whose head name is not among the model's
  heads, with \<open>num_classes\<close> and \<open>inner_dim\<close> the first dimensions of that head's
  \<open>out_proj.weight\<close> and \<open>dense.weight\<close> in the blob. When checkpoint heads are
  loaded, the model afterwards has a head of that name with \<open>num_classes\<close> classes
  and inner dimension \<open>inner_dim\<close>, or the embedding dimension when \<open>inner_dim\<close> is
  \<open>0\<close>; its earlier heads are as before, and the key keeps its entry. When they are
  not loaded, the key is dropped, is absent from the upgraded blob, and a warning
  for it is logged.
\<close>

theorem upgrade_unknown_head:
  assumes run: "upgrade_state_dict_named lib no_child_upgrade m sd name = Inr (m', sd', dropped)"
    and dist: "distinct (map fst sd)"
    and kin: "k \<in> set (map fst sd)"
    and hk: "startswith k (heads_prefix (prefix_of name))"
    and unknown: "head_name_of (prefix_of name) k \<notin> set (map fst (classification_heads m))"
    and w: "map_of sd (heads_prefix (prefix_of name) @ head_name_of (prefix_of name) k
                         @ ''.out_proj.weight'') = Some w"
      "shape w = num_classes # r1"
    and d: "map_of sd (heads_prefix (prefix_of name) @ head_name_of (prefix_of name) k
                         @ ''.dense.weight'') = Some d"
      "shape d = inner_dim # r2"
  shows "(load_heads m \<longrightarrow>
            (\<exists>new embed. encoder_embed_dim (self_args m) = Some embed
                  \<and> map_of (classification_heads m') (head_name_of (prefix_of name) k) = Some new
                  \<and> out_proj_out_features new = num_classes
                  \<and> dense_out_features new = (if inner_dim = 0 then embed else inner_dim))
            \<and> (\<forall>n h. map_of (classification_heads m) n = Some h
                  \<longrightarrow> map_of (classification_heads m') n = Some h)
            \<and> map_of sd' k = map_of sd k \<and> k \<notin> set dropped)
       \<and> (\<not> load_heads m \<and> module_names_ok (classification_heads m) \<longrightarrow>
            k \<in> set dropped \<and> map_of sd' k = None
            \<and> classification_heads m' = classification_heads m
            \<and> DeletingAbsentHead (head_name_of (prefix_of name) k) k \<in> set (logged m')
            \<and> level_of (DeletingAbsentHead (head_name_of (prefix_of name) k) k) = WARNING)"
proof -
  let ?p = "prefix_of name"
  let ?n = "head_name_of ?p k"
  from upgrade_lookup [OF run] obtain sd1 m1 where
    r: "rename_decoder ?p (map fst sd) sd = Inr sd1"
    and hh: "handle_heads lib ?p sd1 (map fst sd1) m [] = Inr (m1, dropped)"
    and lg: "set (logged m1) \<subseteq> set (logged m')"
    and hm: "classification_heads m' = classification_heads m1"
    and look: "\<And>K. map_of sd' K =
       (case (if K \<in> set dropped then None else map_of sd1 K) of
          Some v \<Rightarrow> Some v
        | None \<Rightarrow>
            if startswith K (heads_prefix ?p)
            then map_of (heads_state_dict (classification_heads m1))
                   (drop (length (heads_prefix ?p)) K)
            else None)"
    by (elim exE conjE) blast
  have same: "map_of sd1 k = map_of sd k" by (rule rename_keeps_heads [OF r dist hk])
  from kin have present: "map_of sd k \<noteq> None" by (simp add: keys_iff)
  with same have kin1: "k \<in> set (map fst sd1)" by (simp add: keys_iff)
  have dims: "persisted_dims ?p sd ?n = Inr (num_classes, inner_dim)"
    using w d by (rule persisted_dims_entries)
  then have dims1: "persisted_dims ?p sd1 ?n = Inr (num_classes, inner_dim)"
    by (simp add: persisted_dims_rename [OF r dist])
  have on: "(\<exists>new embed. encoder_embed_dim (self_args m) = Some embed
                  \<and> map_of (classification_heads m') ?n = Some new
                  \<and> out_proj_out_features new = num_classes
                  \<and> dense_out_features new = (if inner_dim = 0 then embed else inner_dim))
            \<and> (\<forall>n h. map_of (classification_heads m) n = Some h
                  \<longrightarrow> map_of (classification_heads m') n = Some h)
            \<and> map_of sd' k = map_of sd k \<and> k \<notin> set dropped"
    if on: "load_heads m"
  proof -
    from unknown have u: "?n \<notin> fst ` set (classification_heads m)" by simp
    from handle_heads_registers [OF on hh kin1 hk u dims1]
    have "\<exists>new embed. encoder_embed_dim (self_args m) = Some embed
        \<and> map_of (classification_heads m') ?n = Some new
        \<and> out_proj_out_features new = num_classes
        \<and> dense_out_features new = (if inner_dim = 0 then embed else inner_dim)"
      by (auto simp: hm inner_dim_or_def)
    moreover from handle_heads_on [OF on hh] have del: "dropped = []"
      and keep: "\<forall>n h. map_of (classification_heads m) n = Some h
          \<longrightarrow> map_of (classification_heads m') n = Some h"
      by (simp_all add: hm)
    moreover have "map_of sd' k = map_of sd k"
      using present same del by (auto simp: look)
    ultimately show ?thesis by simp
  qed
  have off: "k \<in> set dropped \<and> map_of sd' k = None
            \<and> classification_heads m' = classification_heads m
            \<and> DeletingAbsentHead ?n k \<in> set (logged m')
            \<and> level_of (DeletingAbsentHead ?n k) = WARNING"
    if off: "\<not> load_heads m" and ok: "module_names_ok (classification_heads m)"
  proof -
    from handle_heads_off [OF off hh] have
      dr: "dropped = filter (stale ?p sd1 (classification_heads m)) (map fst sd1)"
      and m1: "m1 = m\<lparr>logged := logged m @ map (stale_message ?p (classification_heads m))
                   (filter (stale ?p sd1 (classification_heads m)) (map fst sd1))\<rparr>"
      by simp_all
    from unknown have none: "map_of (classification_heads m) ?n = None"
      by (simp add: map_of_eq_None_iff)
    then have st: "stale ?p sd1 (classification_heads m) k" using hk by (simp add: stale_def)
    with kin1 have dk: "k \<in> set dropped" by (simp add: dr)
    have msg: "stale_message ?p (classification_heads m) k = DeletingAbsentHead ?n k"
      using none by (simp add: stale_message_def)
    have "stale_message ?p (classification_heads m) k \<in> set (logged m1)"
      using st kin1 by (subst m1) auto
    with lg msg have logged: "DeletingAbsentHead ?n k \<in> set (logged m')" by auto
    have h1: "classification_heads m1 = classification_heads m" by (subst m1) simp
    have dl: "\<forall>n \<in> set (map fst (classification_heads m)). CHR ''.'' \<notin> set n"
      using ok by (simp add: module_names_ok_def)
    have "takeWhile (\<lambda>c. c \<noteq> CHR ''.'') (drop (length (heads_prefix ?p)) k)
        \<notin> set (map fst (classification_heads m))"
      using unknown by (simp add: head_name_of_drop)
    from heads_state_dict_unknown [OF dl this] dk
    have "map_of sd' k = None" by (simp add: look h1)
    with dk logged hm h1 show ?thesis by simp
  qed
  from on off show ?thesis by blast
qed

theorem upgrade_unknown_head_witness:
  "upgrade_state_dict_named example_lib no_child_upgrade bare_loading_model mnli_blob []
     = Inr (mnli_model_loaded, mnli_blob_loaded, [])
   \<and> upgrade_state_dict_named example_lib no_child_upgrade bare_model mnli_blob []
     = Inr (mnli_model_dropped, [], map fst mnli_blob)
   \<and> load_heads bare_loading_model \<and> \<not> load_heads bare_model
   \<and> map_of mnli_blob ''classification_heads.mnli.out_proj.weight'' = Some (fresh [3, 4] 300)
   \<and> map_of mnli_blob ''classification_heads.mnli.dense.weight'' = Some (fresh [4, 4] 301)
   \<and> (\<exists>new. map_of (classification_heads mnli_model_loaded) ''mnli'' = Some new
         \<and> out_proj_out_features new = 3 \<and> dense_out_features new = 4)
   \<and> map_of mnli_blob_loaded ''classification_heads.mnli.dense.weight''
       = map_of mnli_blob ''classification_heads.mnli.dense.weight''
   \<and> ''classification_heads.mnli.dense.weight'' \<in> set (map fst mnli_blob)
   \<and> DeletingAbsentHead ''mnli'' ''classification_heads.mnli.dense.weight''
       \<in> set (logged mnli_model_dropped)"
proof -
  let ?k = "''classification_heads.mnli.dense.weight''"
  have d: "distinct (map fst mnli_blob)" by (simp add: mnli_blob_def)
  have on: "load_heads bare_loading_model"
    by (simp add: load_heads_def bare_loading_model_def bare_model_def example_args_def)
  have off: "\<not> load_heads bare_model"
    by (simp add: load_heads_def bare_model_def example_args_def)
  have kin: "?k \<in> set (map fst mnli_blob)" by (simp add: mnli_blob_def)
  have hk: "startswith ?k (heads_prefix (prefix_of []))"
    by (simp add: startswith_def heads_prefix_def prefix_of_def)
  have hn: "head_name_of (prefix_of []) ?k = ''mnli''"
    by (simp add: heads_prefix_def prefix_of_def head_name_of_def)
  have u1: "head_name_of (prefix_of []) ?k \<notin> set (map fst (classification_heads bare_loading_model))"
    by (simp add: bare_loading_model_def bare_model_def)
  have u2: "head_name_of (prefix_of []) ?k \<notin> set (map fst (classification_heads bare_model))"
    by (simp add: bare_model_def)
  have w: "map_of mnli_blob (heads_prefix (prefix_of []) @ head_name_of (prefix_of []) ?k
      @ ''.out_proj.weight'') = Some (fresh [3, 4] 300)"
    by (simp add: hn) (simp add: mnli_blob_def heads_prefix_def prefix_of_def)
  have ws: "shape (fresh [3, 4] 300) = 3 # [4]" by (simp add: fresh_def)
  have dw: "map_of mnli_blob (heads_prefix (prefix_of []) @ head_name_of (prefix_of []) ?k
      @ ''.dense.weight'') = Some (fresh [4, 4] 301)"
    by (simp add: hn) (simp add: mnli_blob_def heads_prefix_def prefix_of_def)
  have ds: "shape (fresh [4, 4] 301) = 4 # [4]" by (simp add: fresh_def)
  have w': "map_of mnli_blob ''classification_heads.mnli.out_proj.weight'' = Some (fresh [3, 4] 300)"
    and d': "map_of mnli_blob ''classification_heads.mnli.dense.weight'' = Some (fresh [4, 4] 301)"
    by (simp_all add: mnli_blob_def)
  note loading = upgrade_unknown_head [OF run_mnli_loading d kin hk u1 w ws dw ds]
  note dropping = upgrade_unknown_head [OF run_mnli d kin hk u2 w ws dw ds]
  from loading on have
    "\<exists>new. map_of (classification_heads mnli_model_loaded) ''mnli'' = Some new
         \<and> out_proj_out_features new = 3 \<and> dense_out_features new = 4"
    unfolding hn by auto
  moreover from loading on have "map_of mnli_blob_loaded ?k = map_of mnli_blob ?k"
    by blast
  moreover from dropping off names_ok_bare have
    "DeletingAbsentHead ''mnli'' ?k \<in> set (logged mnli_model_dropped)"
    unfolding hn by blast
  ultimately show ?thesis using run_mnli_loading run_mnli on off w' d' kin by simp
qed

text \<open>
  The claim as stated fails: for a persisted \<open>dense.weight\<close> without rows the
  registered head has the embedding dimension, four, as its inner dimension, not
  the persisted zero.
\<close>

theorem upgrade_unknown_head_counterexample:
  "upgrade_state_dict_named example_lib no_child_upgrade bare_loading_model rte_blob []
     = Inr (rte_model_loaded, rte_blob_loaded, [])
   \<and> load_heads bare_loading_model
   \<and> ''rte'' \<notin> set (map fst (classification_heads bare_loading_model))
   \<and> map_of rte_blob ''classification_heads.rte.dense.weight'' = Some (fresh [0, 4] 501)
   \<and> size0 (fresh [0, 4] 501) = Inr 0
   \<and> map_of (classification_heads rte_model_loaded) ''rte'' = Some rte_head
   \<and> dense_out_features rte_head = 4"
  using run_rte_loading
  by (simp add: load_heads_def bare_loading_model_def bare_model_def example_args_def
      rte_blob_def size0_def fresh_def rte_model_loaded_def rte_head_def)

text \<open>
  C8 (as amended). A key that starts neither with the legacy prefix nor with the
  heads prefix is still present after the upgrade. Its value is unchanged when no
  legacy key of the blob is rewritten onto it; when one is, it holds the value of
  that legacy key.
\<close>

theorem upgrade_keeps_other_keys:
  assumes run: "upgrade_state_dict_named lib no_child_upgrade m sd name = Inr (m', sd', dropped)"
    and dist: "distinct (map fst sd)"
    and nl: "\<not> startswith K (prefix_of name @ ''decoder'')"
    and nh: "\<not> startswith K (heads_prefix (prefix_of name))"
    and v: "map_of sd K = Some v"
  shows "(\<exists>v'. map_of sd' K = Some v')
       \<and> ((\<forall>k \<in> set (map fst sd). startswith k (prefix_of name @ ''decoder'')
              \<longrightarrow> new_key (prefix_of name) k \<noteq> K)
            \<longrightarrow> map_of sd' K = Some v)
       \<and> (\<forall>k \<in> set (map fst sd). startswith k (prefix_of name @ ''decoder'')
              \<and> new_key (prefix_of name) k = K
            \<longrightarrow> map_of sd' K = map_of sd k)"
proof -
  let ?p = "prefix_of name"
  from upgrade_lookup [OF run] obtain sd1 m1 where
    r: "rename_decoder ?p (map fst sd) sd = Inr sd1"
    and h: "handle_heads lib ?p sd1 (map fst sd1) m [] = Inr (m1, dropped)"
    and look: "\<And>K. map_of sd' K =
       (case (if K \<in> set dropped then None else map_of sd1 K) of
          Some v \<Rightarrow> Some v
        | None \<Rightarrow>
            if startswith K (heads_prefix ?p)
            then map_of (heads_state_dict (classification_heads m1))
                   (drop (length (heads_prefix ?p)) K)
            else None)"
    by (elim exE conjE) blast
  have nd: "K \<notin> set dropped" using handle_heads_dropped [OF h, of K] nh by blast
  have final: "map_of sd' K = map_of sd1 K" using nd nh by (simp add: look split: option.splits)
  note one = rename_decoder_lookup [OF r dist, of K]
  have third: "\<forall>k \<in> set (map fst sd). startswith k (?p @ ''decoder'') \<and> new_key ?p k = K
      \<longrightarrow> map_of sd' K = map_of sd k"
  proof (intro ballI impI, elim conjE)
    fix k assume kin: "k \<in> set (map fst sd)" and lk: "startswith k (?p @ ''decoder'')"
      and nk: "new_key ?p k = K"
    from kin obtain u where u: "map_of sd k = Some u" by (auto simp: keys_iff)
    from upgrade_renames [OF run dist lk u] nk u show "map_of sd' K = map_of sd k" by simp
  qed
  have "(\<exists>v'. map_of sd' K = Some v')
       \<and> ((\<forall>k \<in> set (map fst sd). startswith k (?p @ ''decoder'') \<longrightarrow> new_key ?p k \<noteq> K)
            \<longrightarrow> map_of sd' K = Some v)"
  proof (cases "startswith K (?p @ ''encoder'') \<and> old_key ?p K \<in> set (map fst sd)")
    case True
    then obtain w where w: "map_of sd (old_key ?p K) = Some w" by (auto simp: keys_iff)
    have "new_key ?p (old_key ?p K) = K" using True by (simp add: new_key_old_key)
    with True one nl w final show ?thesis
      by (metis old_key_legacy)
  next
    case False
    with one nl v final show ?thesis by auto
  qed
  with third show ?thesis by blast
qed

theorem upgrade_keeps_other_keys_witness:
  "upgrade_state_dict_named example_lib no_child_upgrade bare_model legacy_blob []
     = Inr (bare_model, legacy_blob_upgraded, [])
   \<and> distinct (map fst legacy_blob)
   \<and> \<not> startswith ''version.note'' (prefix_of [] @ ''decoder'')
   \<and> \<not> startswith ''version.note'' (heads_prefix (prefix_of []))
   \<and> map_of legacy_blob ''version.note'' = Some (fresh [1] 103)
   \<and> list_all (\<lambda>k. startswith k (prefix_of [] @ ''decoder'')
                      \<longrightarrow> new_key (prefix_of []) k \<noteq> ''version.note'') (map fst legacy_blob)
   \<and> map_of legacy_blob_upgraded ''version.note'' = Some (fresh [1] 103)
   \<and> new_key (prefix_of []) ''decoder.lm_head.bias'' = ''encoder.lm_head.bias''
   \<and> map_of legacy_blob_upgraded ''encoder.lm_head.bias''
       = map_of legacy_blob ''decoder.lm_head.bias''"
proof -
  have d: "distinct (map fst legacy_blob)" by (simp add: legacy_blob_def)
  have nl: "\<not> startswith ''version.note'' (prefix_of [] @ ''decoder'')"
    by (simp add: startswith_def prefix_of_def)
  have nh: "\<not> startswith ''version.note'' (heads_prefix (prefix_of []))"
    by (simp add: startswith_def prefix_of_def heads_prefix_def)
  have v: "map_of legacy_blob ''version.note'' = Some (fresh [1] 103)"
    by (simp add: legacy_blob_def)
  have nt: "\<forall>k \<in> set (map fst legacy_blob). startswith k (prefix_of [] @ ''decoder'')
      \<longrightarrow> new_key (prefix_of []) k \<noteq> ''version.note''"
    by (simp add: legacy_blob_def new_key_def prefix_of_def)
  have nl2: "\<not> startswith ''encoder.lm_head.bias'' (prefix_of [] @ ''decoder'')"
    by (simp add: startswith_def prefix_of_def)
  have nh2: "\<not> startswith ''encoder.lm_head.bias'' (heads_prefix (prefix_of []))"
    by (simp add: startswith_def prefix_of_def heads_prefix_def)
  have v2: "map_of legacy_blob ''encoder.lm_head.bias'' = Some (fresh [8] 100)"
    by (simp add: legacy_blob_def)
  have kin: "''decoder.lm_head.bias'' \<in> set (map fst legacy_blob)" by (simp add: legacy_blob_def)
  have lk: "startswith ''decoder.lm_head.bias'' (prefix_of [] @ ''decoder'')"
    by (simp add: startswith_def prefix_of_def)
  have nk: "new_key (prefix_of []) ''decoder.lm_head.bias'' = ''encoder.lm_head.bias''"
    by (simp add: new_key_def prefix_of_def)
  from upgrade_keeps_other_keys [OF run_legacy d nl nh v] nt
  have "map_of legacy_blob_upgraded ''version.note'' = Some (fresh [1] 103)" by blast
  moreover from upgrade_keeps_other_keys [OF run_legacy d nl2 nh2 v2] kin lk nk
  have "map_of legacy_blob_upgraded ''encoder.lm_head.bias''
       = map_of legacy_blob ''decoder.lm_head.bias''" by blast
  ultimately show ?thesis using run_legacy d nl nh v nt nk by (simp add: list_all_iff)
qed

text \<open>
  The claim as stated fails: \<open>encoder.lm_head.bias\<close> is in neither namespace, and
  the upgrade replaces its value by that of \<open>decoder.lm_head.bias\<close>.
\<close>

theorem upgrade_keeps_other_keys_counterexample:
  "map_of legacy_blob ''encoder.lm_head.bias'' = Some (fresh [8] 100)
   \<and> \<not> startswith ''encoder.lm_head.bias'' (prefix_of [] @ ''decoder'')
   \<and> \<not> startswith ''encoder.lm_head.bias'' (heads_prefix (prefix_of []))
   \<and> upgrade_state_dict_named example_lib no_child_upgrade bare_model legacy_blob []
       = Inr (bare_model, legacy_blob_upgraded, [])
   \<and> map_of legacy_blob_upgraded ''encoder.lm_head.bias'' = Some (fresh [8] 101)
   \<and> fresh [8] 101 \<noteq> fresh [8] 100"
  using run_legacy
  by (simp add: legacy_blob_def legacy_blob_upgraded_def startswith_def prefix_of_def
      heads_prefix_def fresh_def)

text \<open>
  C9. The legacy prefix is matched as a plain string prefix: every key of the blob
  that starts with \<open>prefix + "decoder"\<close>, whatever follows, is found after the
  upgrade under \<open>prefix + "encoder"\<close> followed by the rest of the key, and is gone
  under its old name.
\<close>

theorem upgrade_rewrites_plain_prefix:
  assumes "upgrade_state_dict_named lib no_child_upgrade m sd name = Inr (m', sd', dropped)"
    and "distinct (map fst sd)"
    and "startswith k (prefix_of name @ ''decoder'')"
    and "map_of sd k = Some v"
  shows "map_of sd' (prefix_of name @ ''encoder'' @ drop (length (prefix_of name @ ''decoder'')) k)
           = Some v
       \<and> map_of sd' k = None"
  using upgrade_renames [OF assms] by (simp add: new_key_def)

theorem upgrade_rewrites_plain_prefix_witness:
  "upgrade_state_dict_named example_lib no_child_upgrade bare_model legacy_blob []
     = Inr (bare_model, legacy_blob_upgraded, [])
   \<and> distinct (map fst legacy_blob)
   \<and> startswith ''decoder_embed.weight'' (prefix_of [] @ ''decoder'')
   \<and> map_of legacy_blob ''decoder_embed.weight'' = Some (fresh [8, 4] 102)
   \<and> map_of legacy_blob_upgraded ''encoder_embed.weight'' = Some (fresh [8, 4] 102)
   \<and> map_of legacy_blob_upgraded ''decoder_embed.weight'' = None"
proof -
  have d: "distinct (map fst legacy_blob)" by (simp add: legacy_blob_def)
  have l: "startswith ''decoder_embed.weight'' (prefix_of [] @ ''decoder'')"
    by (simp add: startswith_def prefix_of_def)
  have v: "map_of legacy_blob ''decoder_embed.weight'' = Some (fresh [8, 4] 102)"
    by (simp add: legacy_blob_def)
  from upgrade_rewrites_plain_prefix [OF run_legacy d l v] run_legacy d l v
  show ?thesis by (simp add: prefix_of_def)
qed

lemma head_forward_lm_head [simp]:
  "head_forward (ops\<lparr>lm_head := g\<rparr>) h x kw = head_forward ops h x kw"
  by (simp add: head_forward_def split: option.splits)

lemma extract_features_lm_head [simp]:
  "extract_features (ops\<lparr>lm_head := g\<rparr>) t l r = extract_features ops t l r"
  by (simp add: extract_features_def split: list.splits)

text \<open>
  C10. With a head name given, the result of the forward pass is the named head
  applied to the extracted features (or the error of whichever step fails), and
  it is the same for every value of \<open>features_only\<close> and every language-model
  head: the output layer plays no part.
\<close>

theorem forward_with_head_name:
  "forward ops self src_tokens features_only return_all_hiddens (Some name) kw =
     (case extract_features ops src_tokens (src_lengths kw) return_all_hiddens of
        Inl e \<Rightarrow> Inl e
      | Inr (features, extra) \<Rightarrow>
          (case getitem (classification_heads self) name of
             Inl e \<Rightarrow> Inl e
           | Inr h \<Rightarrow>
               (case head_forward ops h features kw of
                  Inl e \<Rightarrow> Inl e
                | Inr y \<Rightarrow> Inr (y, extra))))
   \<and> forward (ops\<lparr>lm_head := other_lm_head\<rparr>) self src_tokens other_features_only
        return_all_hiddens (Some name) kw
     = forward ops self src_tokens features_only return_all_hiddens (Some name) kw"
  by (simp add: forward_def encoder_forward_def split: sum.splits)

theorem forward_with_head_name_witness:
  "forward toy_ops sst2_model (5::nat) False False (Some ''sst2'')
       \<lparr>src_lengths = None, masked_tokens = None\<rparr>
     = Inr (14, None)
   \<and> forward (toy_ops\<lparr>lm_head := (\<lambda>x masked. 0)\<rparr>) sst2_model 5 True False (Some ''sst2'')
       \<lparr>src_lengths = None, masked_tokens = None\<rparr>
     = forward toy_ops sst2_model 5 False False (Some ''sst2'')
       \<lparr>src_lengths = None, masked_tokens = None\<rparr>"
proof -
  note inst = forward_with_head_name [of toy_ops sst2_model 5 False False "''sst2''"
      "\<lparr>src_lengths = None, masked_tokens = None\<rparr>" "\<lambda>x masked. 0" True]
  have "forward toy_ops sst2_model (5::nat) False False (Some ''sst2'')
       \<lparr>src_lengths = None, masked_tokens = None\<rparr> = Inr (14, None)"
    by (subst inst [THEN conjunct1])
      (simp add: extract_features_def toy_ops_def getitem_def sst2_model_def
        head_forward_def sst2_head_def)
  with inst show ?thesis by simp
qed

end
